theory Spec2Isabelle
  imports Complex_Main "HOL-Library.Multiset"
begin

section \<open>Values shared by the document format and the live editor\<close>

text \<open>
  Identifiers are JavaScript strings.  A call that may throw returns a \<open>result\<close>
  together with the editor as the call left it; an \<open>async\<close> function returns
  a promise that is resolved with a value or rejected with the thrown error.
\<close>

type_synonym ident = string

datatype 'a result = Threw string | Returned 'a

datatype 'a promise = Resolved 'a | Rejected string

text \<open>
  A JavaScript number is a real or \<open>NaN\<close> (rounding and overflow of the floating
  point format are left out).  \<open>n_add\<close> is \<open>+\<close>, \<open>n_sub\<close> is \<open>-\<close>.
\<close>

datatype number = Num real | NaN

fun n_add :: "number \<Rightarrow> number \<Rightarrow> number" where
  "n_add (Num a) (Num b) = Num (a + b)"
| "n_add _ _ = NaN"

fun n_sub :: "number \<Rightarrow> number \<Rightarrow> number" where
  "n_sub (Num a) (Num b) = Num (a - b)"
| "n_sub _ _ = NaN"

record position =
  pos_x :: number
  pos_y :: number

text \<open>
  An interface of a node (spec section 3): identifier, name, side and the optional
  \<open>subgraphNodeId\<close>; \<open>nodeId\<close> and \<open>connectionCount\<close> are the fields of
  the live object that \<open>Editor.js\<close> reads and writes.
\<close>

record node_interface =
  intf_id :: ident
  intf_name :: string
  intf_nodeId :: ident
  intf_side :: string
  intf_subgraphNodeId :: "ident option"
  intf_connectionCount :: nat

text \<open>A boundary interface of a graph (an entry of \<open>graph.inputs\<close> / \<open>graph.outputs\<close>).\<close>

record graph_interface =
  gi_id :: ident
  gi_name :: string
  gi_side :: string
  gi_subgraphNodeId :: "ident option"

section \<open>The dataflow document\<close>

record connection_state =
  cs_id :: ident
  cs_from :: ident
  cs_to :: ident

datatype node_state =
  NodeState (ns_id: ident) (ns_type: string) (ns_name: "string option")
    (ns_position: "position option") (ns_interfaces: "node_interface list")
    (ns_subgraph: "ident option") (ns_graphState: "graph_state option")
and graph_state =
  GraphState (gs_id: ident) (gs_name: "string option") (gs_nodes: "node_state list")
    (gs_connections: "connection_state list")
    (gs_inputs: "graph_interface list option") (gs_outputs: "graph_interface list option")
    (gs_panning: "position option") (gs_scaling: "real option")

text \<open>
  \<open>state.graph\<close> is either an object with \<open>entryGraph\<close> defined (multi-graph form)
  or a serialized graph (single-graph form); \<open>state.subgraphs\<close> may be absent.
\<close>

datatype dataflow_graph = EntryGraph ident | SingleGraph graph_state

record dataflow =
  df_graph :: dataflow_graph
  df_subgraphs :: "graph_state list option"

fun with_graphState :: "graph_state option \<Rightarrow> node_state \<Rightarrow> node_state" where
  "with_graphState g (NodeState i t n p ifs s _) = NodeState i t n p ifs s g"

fun with_nodes :: "node_state list \<Rightarrow> graph_state \<Rightarrow> graph_state" where
  "with_nodes ns (GraphState i n _ cs ins outs pan sc) = GraphState i n ns cs ins outs pan sc"

fun with_io ::
  "graph_interface list option \<Rightarrow> graph_interface list option \<Rightarrow> graph_state \<Rightarrow> graph_state"
where
  "with_io ins outs (GraphState i n ns cs _ _ pan sc) = GraphState i n ns cs ins outs pan sc"

fun with_view :: "position option \<Rightarrow> real option \<Rightarrow> graph_state \<Rightarrow> graph_state" where
  "with_view pan sc (GraphState i n ns cs ins outs _ _) = GraphState i n ns cs ins outs pan sc"

text \<open>Template literals: \<open>${n}\<close> for a number and for a possibly undefined string.\<close>

fun digits :: "nat \<Rightarrow> nat \<Rightarrow> string" where
  "digits 0 n = []"
| "digits (Suc k) n =
     (if n < 10 then [char_of (48 + n)] else digits k (n div 10) @ [char_of (48 + n mod 10)])"

definition string_of_nat :: "nat \<Rightarrow> string" where
  "string_of_nat n = digits (Suc n) n"

definition interpolate :: "string option \<Rightarrow> string" where
  "interpolate s = (case s of None \<Rightarrow> ''undefined'' | Some t \<Rightarrow> t)"

definition quote :: string where
  "quote = [CHR 0x27]"

section \<open>The live editor\<close>

type_synonym gref = nat
type_synonym nref = nat

record connection =
  conn_from :: node_interface
  conn_to :: node_interface

text \<open>
  Live objects are kept in a store addressed by references: the same node is reached
  from its graph, from the navigation stack and from connections.  \<open>node_inputs\<close> and
  \<open>node_outputs\<close> are the objects \<open>node.inputs\<close> / \<open>node.outputs\<close>: key and
  interface, in insertion order.
\<close>

record node_obj =
  node_id :: ident
  node_type :: string
  node_position :: "position option"
  node_inputs :: "(string \<times> node_interface) list"
  node_outputs :: "(string \<times> node_interface) list"
  node_subgraph :: "gref option"

record graph_obj =
  graph_id :: ident
  graph_name :: "string option"
  graph_nodes :: "nref list"
  graph_connections :: "connection list"
  graph_inputs :: "graph_interface list"
  graph_outputs :: "graph_interface list"
  graph_panning :: "position option"
  graph_scaling :: "real option"
  graph_selectedNodes :: "nref list"

record heap =
  nodes_h :: "nref \<Rightarrow> node_obj"
  graphs_h :: "gref \<Rightarrow> graph_obj"

record node_class =
  nc_type :: string
  nc_title :: string

record node_type =
  nt_type :: node_class
  nt_category :: string
  nt_title :: string
  nt_isCategory :: bool

text \<open>
  \<open>PipelineManagerEditor\<close>: \<open>priv_readonly\<close> is \<open>_readonly\<close>, \<open>priv_graph\<close> is
  \<open>_graph\<close>, \<open>priv_switchGraph\<close> tells whether \<open>_switchGraph\<close> has been set,
  \<open>graphs\<close> is the set of registered graphs in insertion order, and the top of
  \<open>subgraphStack\<close> is its last element.
\<close>

record editor =
  preview :: bool
  priv_readonly :: bool
  allowLoopbacks :: bool
  subgraphStack :: "(ident \<times> nref) list"
  subgraphNodePositions :: "ident \<rightharpoonup> position"
  priv_graph :: gref
  graphs :: "gref list"
  priv_switchGraph :: bool
  graphName :: "string option"
  priv_nodeTypes :: "(string \<times> node_type) list"
  priv_graphTemplates :: "graph_state list"
  heap :: heap

text \<open>
  What \<open>Graph.load\<close> leaves behind: the errors it returned or the error it threw,
  the store, and the graphs it registered with the editor.
\<close>

datatype load_outcome =
  LoadThrew string heap "gref list"
| LoadReturned "string list" heap "gref list"

text \<open>
  The specification document: the node entries are read only by \<open>NodeFactory\<close> and
  \<open>readInterfaceTypes\<close>; the metadata fields are optional.
\<close>

record spec_node =
  sn_name :: string
  sn_category :: "string option"
  sn_inputs :: "(string \<times> string) list"
  sn_outputs :: "(string \<times> string) list"
  sn_properties :: "string list"

record metadata =
  md_readonly :: "bool option"
  md_allowLoopbacks :: "bool option"
  md_interfaces :: "(string \<times> string) list option"

record dataflow_specification =
  spec_nodes :: "spec_node list"
  spec_metadata :: metadata

text \<open>
  The collaborators of \<open>Editor.js\<close> and \<open>EditorManager.js\<close> that are not part of the sources: the graph
  model (\<open>CustomGraph.js\<close>, \<open>CustomGraphNode.js\<close>), \<open>interfaceParser.js\<close>, the
  layout manager, \<open>NodeFactory.js\<close>, the DOM and the build flag; \<open>subgraphTypes\<close>
  holds the three node type names exported by \<open>subgraphInterface.js\<close>.  Every
  operation below takes them as the parameter \<open>env\<close>.
\<close>

record env =
  devMode :: bool
  callStackLimit :: nat
  graph_load :: "heap \<Rightarrow> gref \<Rightarrow> graph_state \<Rightarrow> load_outcome"
  graph_save :: "heap \<Rightarrow> gref \<Rightarrow> graph_state"
  propagateInterfaces ::
    "node_obj \<Rightarrow> node_obj \<Rightarrow> (string \<times> node_interface) list \<times> (string \<times> node_interface) list"
  updateInterfaces ::
    "graph_obj \<Rightarrow> node_obj list \<Rightarrow> graph_interface list \<times> graph_interface list"
  applySidePositions ::
    "(string \<times> graph_interface) list \<Rightarrow> (string \<times> graph_interface) list \<Rightarrow>
       string list + ((string \<times> graph_interface) list \<times> (string \<times> graph_interface) list)"
  activeAlgorithm :: string
  computeLayout :: "graph_state \<Rightarrow> graph_state"
  hasDocument :: bool
  fitToView :: "heap \<Rightarrow> gref \<Rightarrow> position \<times> real"
  nodeFactory :: "spec_node \<Rightarrow> string list \<Rightarrow> node_class"
  readInterfaceTypes :: "spec_node list \<Rightarrow> string list"
  createCustomGraphNodeType :: "graph_state \<Rightarrow> string \<Rightarrow> node_class"
  subgraphTypes :: "string list"

definition current_graph :: "editor \<Rightarrow> graph_obj" where
  "current_graph ed = graphs_h (heap ed) (priv_graph ed)"

definition upd_graph :: "gref \<Rightarrow> (graph_obj \<Rightarrow> graph_obj) \<Rightarrow> editor \<Rightarrow> editor" where
  "upd_graph g f ed =
     ed\<lparr>heap := (heap ed)\<lparr>graphs_h := (graphs_h (heap ed))(g := f (graphs_h (heap ed) g))\<rparr>\<rparr>"

definition upd_node :: "nref \<Rightarrow> (node_obj \<Rightarrow> node_obj) \<Rightarrow> editor \<Rightarrow> editor" where
  "upd_node r f ed =
     ed\<lparr>heap := (heap ed)\<lparr>nodes_h := (nodes_h (heap ed))(r := f (nodes_h (heap ed) r))\<rparr>\<rparr>"

text \<open>The accessor pair \<open>get readonly\<close> / \<open>set readonly\<close>.\<close>

definition readonly :: "editor \<Rightarrow> bool" where
  "readonly ed = (priv_readonly ed \<or> preview ed)"

definition set_readonly :: "bool \<Rightarrow> editor \<Rightarrow> editor" where
  "set_readonly val ed = ed\<lparr>priv_readonly := val\<rparr>"


definition typeError :: "string \<Rightarrow> string" where
  "typeError prop =
     ''TypeError: Cannot read properties of undefined (reading '' @ quote @ prop @ quote @ '')''"

definition rangeError :: string where
  "rangeError = ''RangeError: Maximum call stack size exceeded''"

text \<open>\<open>array.forEach\<close> with a callback that may throw: the first throw ends the loop.\<close>

fun forEach :: "('a \<Rightarrow> editor \<Rightarrow> unit result \<times> editor) \<Rightarrow> 'a list \<Rightarrow> editor \<Rightarrow> unit result \<times> editor"
where
  "forEach f [] ed = (Returned (), ed)"
| "forEach f (x # xs) ed =
     (case f x ed of
        (Threw err, ed') \<Rightarrow> (Threw err, ed')
      | (Returned _, ed') \<Rightarrow> forEach f xs ed')"

subsection \<open>Graph primitives\<close>

text \<open>
  \<open>graph.removeConnection\<close> and \<open>graph.removeNode\<close> of the graph model: removing a
  node also removes the connections that touch it.
\<close>

definition touches :: "ident \<Rightarrow> connection \<Rightarrow> bool" where
  "touches nid c = (intf_nodeId (conn_from c) = nid \<or> intf_nodeId (conn_to c) = nid)"

definition removeConnection :: "connection \<Rightarrow> graph_obj \<Rightarrow> graph_obj" where
  "removeConnection c g = g\<lparr>graph_connections := remove1 c (graph_connections g)\<rparr>"

definition removeNode :: "heap \<Rightarrow> nref \<Rightarrow> graph_obj \<Rightarrow> graph_obj" where
  "removeNode h r g =
     (if r \<in> set (graph_nodes g)
      then g\<lparr>graph_connections :=
                filter (\<lambda>c. \<not> touches (node_id (nodes_h h r)) c) (graph_connections g),
             graph_nodes := remove1 r (graph_nodes g)\<rparr>
      else g)"

text \<open>
  The two loops shared by \<open>PipelineManagerEditor.cleanEditor\<close> and
  \<open>EditorManager.cleanEditor\<close>: every connection, then every node of the current
  graph, from the last index down to the first.
\<close>

definition removeAllConnections :: "editor \<Rightarrow> editor" where
  "removeAllConnections ed =
     fold (\<lambda>c. upd_graph (priv_graph ed) (removeConnection c))
       (rev (graph_connections (current_graph ed))) ed"

definition removeAllNodes :: "editor \<Rightarrow> editor" where
  "removeAllNodes ed =
     fold (\<lambda>r e. upd_graph (priv_graph ed) (removeNode (heap e) r) e)
       (rev (graph_nodes (current_graph ed))) ed"

definition cleanEditor :: "editor \<Rightarrow> editor" where
  "cleanEditor ed = removeAllNodes (removeAllConnections ed)"

definition unregisterGraphs :: "editor \<Rightarrow> editor" where
  "unregisterGraphs ed =
     ed\<lparr>graphs :=
          filter (\<lambda>graph. \<not> (graph_id (graphs_h (heap ed) graph) \<noteq> graph_id (current_graph ed)))
            (graphs ed),
        subgraphStack := []\<rparr>"

subsection \<open>Navigation: entering a subgraph\<close>

definition restorePosition :: "nref \<Rightarrow> editor \<Rightarrow> editor" where
  "restorePosition r ed =
     (let n = nodes_h (heap ed) r in
      case subgraphNodePositions ed (node_id n) of
        None \<Rightarrow> ed
      | Some p \<Rightarrow>
          (upd_node r (\<lambda>n. n\<lparr>node_position := Some p\<rparr>) ed)
            \<lparr>subgraphNodePositions := (subgraphNodePositions ed)(node_id n := None)\<rparr>)"

text \<open>
  \<open>switchGraph\<close>.  \<open>propagateInterfaces\<close> may rewrite the interfaces of the nodes of
  the subgraph.  The layout recomputation it schedules with \<open>nextTick().then\<close> runs
  after the call has returned and is not part of it.
\<close>

definition switchGraph :: "env \<Rightarrow> nref \<Rightarrow> editor \<Rightarrow> unit result \<times> editor" where
  "switchGraph env subgraphNode ed0 =
     (let ed = ed0\<lparr>priv_switchGraph := True\<rparr>;
          node = nodes_h (heap ed) subgraphNode
      in case node_subgraph node of
           None \<Rightarrow> (Threw (typeError ''nodes''), ed)
         | Some subgraph \<Rightarrow>
             (let members = graph_nodes (graphs_h (heap ed) subgraph);
                  ed1 = fold (\<lambda>r. upd_node r (\<lambda>n.
                          n\<lparr>node_inputs := fst (propagateInterfaces env node n),
                            node_outputs := snd (propagateInterfaces env node n)\<rparr>)) members ed;
                  ed2 = fold restorePosition members ed1;
                  ed3 = ed2\<lparr>priv_graph := subgraph\<rparr>
              in (Returned (), ed3\<lparr>graphName := graph_name (current_graph ed3)\<rparr>)))"

definition switchToSubgraph :: "env \<Rightarrow> nref \<Rightarrow> editor \<Rightarrow> unit result \<times> editor" where
  "switchToSubgraph env subgraphNode ed =
     switchGraph env subgraphNode
       (ed\<lparr>subgraphStack := subgraphStack ed @ [(graph_id (current_graph ed), subgraphNode)]\<rparr>)"

subsection \<open>Layout\<close>

fun without_position :: "node_state \<Rightarrow> node_state" where
  "without_position (NodeState i t n _ ifs s g) = NodeState i t n None ifs s g"

definition updateNodesPosition :: "graph_state \<Rightarrow> editor \<Rightarrow> unit result \<times> editor" where
  "updateNodesPosition updatedGraph ed =
     forEach (\<lambda>updatedState e.
        case filter (\<lambda>r. ns_id updatedState = node_id (nodes_h (heap e) r))
               (graph_nodes (current_graph e)) of
          [] \<Rightarrow> (Threw (typeError ''position''), e)
        | r # _ \<Rightarrow> (Returned (), upd_node r (\<lambda>n. n\<lparr>node_position := ns_position updatedState\<rparr>) e))
       (gs_nodes updatedGraph) ed"

definition applyAutolayout :: "env \<Rightarrow> bool \<Rightarrow> editor \<Rightarrow> unit result \<times> editor" where
  "applyAutolayout env resetLocations ed =
     (let state = graph_save env (heap ed) (priv_graph ed);
          state' = (if resetLocations
                    then with_nodes (map without_position (gs_nodes state)) state else state)
      in updateNodesPosition (computeLayout env state') ed)"

text \<open>
  \<open>centerZoom\<close>: nothing happens without nodes or without a DOM; the transform itself
  is computed from measurements of the page, here \<open>fitToView\<close>.
\<close>

definition centerZoom :: "env \<Rightarrow> editor \<Rightarrow> editor" where
  "centerZoom env ed =
     (if graph_nodes (current_graph ed) = [] \<or> \<not> hasDocument env then ed
      else upd_graph (priv_graph ed)
             (\<lambda>g. g\<lparr>graph_panning := Some (fst (fitToView env (heap ed) (priv_graph ed))),
                    graph_scaling := Some (snd (fitToView env (heap ed) (priv_graph ed)))\<rparr>) ed)"


subsection \<open>Navigation: leaving a subgraph\<close>

text \<open>
  Plain objects as lists of key and value in insertion order.  (Keys that are
  canonical array indices would be enumerated first; interface keys are not.)
\<close>

definition set_property :: "string \<Rightarrow> 'a \<Rightarrow> (string \<times> 'a) list \<Rightarrow> (string \<times> 'a) list" where
  "set_property k v obj =
     (if k \<in> set (map fst obj) then map (\<lambda>(k', v'). if k' = k then (k', v) else (k', v')) obj
      else obj @ [(k, v)])"

definition delete_property :: "string \<Rightarrow> (string \<times> 'a) list \<Rightarrow> (string \<times> 'a) list" where
  "delete_property k obj = filter (\<lambda>(k', _). k' \<noteq> k) obj"

definition fromEntries :: "(string \<times> 'a) list \<Rightarrow> (string \<times> 'a) list" where
  "fromEntries entries = fold (\<lambda>(k, v). set_property k v) entries []"

fun update_first :: "('a \<Rightarrow> bool) \<Rightarrow> ('a \<Rightarrow> 'a) \<Rightarrow> 'a list \<Rightarrow> 'a list" where
  "update_first P f [] = []"
| "update_first P f (x # xs) = (if P x then f x # xs else x # update_first P f xs)"

fun join :: "string \<Rightarrow> string list \<Rightarrow> string" where
  "join sep [] = []"
| "join sep [x] = x"
| "join sep (x # y # ys) = x @ sep @ join sep (y # ys)"

text \<open>The key under which a boundary interface is entered: its \<open>subgraphNodeId\<close>.\<close>

definition boundaryKey :: "graph_interface \<Rightarrow> string" where
  "boundaryKey intf = interpolate (gi_subgraphNodeId intf)"

definition boundaryMap :: "graph_interface list \<Rightarrow> (string \<times> graph_interface) list" where
  "boundaryMap intfs = fromEntries (map (\<lambda>intf. (boundaryKey intf, intf)) intfs)"

text \<open>
  \<open>Object.assign(foundIntf, intf)\<close> and \<open>new NodeInterface(intf.name)\<close> followed by
  \<open>Object.assign\<close> and \<open>addInput\<close> / \<open>addOutput\<close>, which stamps the node's
  identifier on the interface.
\<close>

definition assign :: "graph_interface \<Rightarrow> node_interface \<Rightarrow> node_interface" where
  "assign intf io =
     io\<lparr>intf_id := gi_id intf, intf_name := gi_name intf, intf_side := gi_side intf,
        intf_subgraphNodeId := gi_subgraphNodeId intf\<rparr>"

definition newInterface :: "ident \<Rightarrow> graph_interface \<Rightarrow> node_interface" where
  "newInterface nid intf =
     \<lparr>intf_id = gi_id intf, intf_name = gi_name intf, intf_nodeId = nid,
      intf_side = gi_side intf, intf_subgraphNodeId = gi_subgraphNodeId intf,
      intf_connectionCount = 0\<rparr>"

text \<open>
  The two loops that bring one side of the subgraph node in line with the boundary of
  its subgraph: interfaces whose \<open>subgraphNodeId\<close> is no key of the boundary are
  removed by name; every boundary entry is then assigned to the interface that carries
  its key, or added under its name when there is none.
\<close>

definition keptByBoundary :: "(string \<times> graph_interface) list \<Rightarrow> node_interface \<Rightarrow> bool" where
  "keptByBoundary boundary k =
     (case intf_subgraphNodeId k of None \<Rightarrow> False | Some i \<Rightarrow> i \<in> set (map fst boundary))"

definition removeStale ::
  "(string \<times> graph_interface) list \<Rightarrow> (string \<times> node_interface) list \<Rightarrow>
     (string \<times> node_interface) list"
where
  "removeStale boundary ios =
     fold (\<lambda>k obj. if \<not> keptByBoundary boundary k then delete_property (intf_name k) obj else obj)
       (map snd ios) ios"

definition applyEntry ::
  "ident \<Rightarrow> string \<times> graph_interface \<Rightarrow> (string \<times> node_interface) list \<Rightarrow>
     (string \<times> node_interface) list"
where
  "applyEntry nid entry ios =
     (case find (\<lambda>(_, io). intf_subgraphNodeId io = Some (fst entry)) ios of
        None \<Rightarrow> set_property (gi_name (snd entry)) (newInterface nid (snd entry)) ios
      | Some _ \<Rightarrow>
          update_first (\<lambda>(_, io). intf_subgraphNodeId io = Some (fst entry))
            (\<lambda>(key, io). (key, assign (snd entry) io)) ios)"

definition reconcile ::
  "ident \<Rightarrow> (string \<times> graph_interface) list \<Rightarrow> (string \<times> node_interface) list \<Rightarrow>
     (string \<times> node_interface) list"
where
  "reconcile nid boundary ios = fold (applyEntry nid) boundary (removeStale boundary ios)"

definition internalError :: "string list \<Rightarrow> string" where
  "internalError errors =
     ''Error: Internal error occurred while returning back from a subgraph. Reason: '' @
     join ''. '' errors"

text \<open>
  \<open>backFromSubgraph\<close>.  Popping an empty stack, a parent graph that is not
  registered, and a \<open>_switchGraph\<close> that was never set all end in a \<open>TypeError\<close>;
  an error list from \<open>applySidePositions\<close> is thrown as an internal error.
\<close>

definition backFromSubgraph :: "env \<Rightarrow> editor \<Rightarrow> unit result \<times> editor" where
  "backFromSubgraph env ed0 =
     (case rev (subgraphStack ed0) of
        [] \<Rightarrow> (Threw ''TypeError: undefined is not iterable'', ed0)
      | (newGraphId, subgraphNode) # _ \<Rightarrow>
         (let ed1 = ed0\<lparr>subgraphStack := butlast (subgraphStack ed0)\<rparr>;
              newGraph = filter (\<lambda>graph. graph_id (graphs_h (heap ed1) graph) = newGraphId)
                           (graphs ed1);
              updated = updateInterfaces env (current_graph ed1)
                          (map (nodes_h (heap ed1)) (graph_nodes (current_graph ed1)));
              ed2 = upd_graph (priv_graph ed1)
                      (\<lambda>g. g\<lparr>graph_inputs := fst updated, graph_outputs := snd updated\<rparr>) ed1
          in case applySidePositions env (boundaryMap (graph_inputs (current_graph ed2)))
                    (boundaryMap (graph_outputs (current_graph ed2))) of
               Inl errors \<Rightarrow> (Threw (internalError errors), ed2)
             | Inr (inputs, outputs) \<Rightarrow>
                 (let ed3 = upd_node subgraphNode
                              (\<lambda>n. n\<lparr>node_inputs := reconcile (node_id n) inputs (node_inputs n),
                                     node_outputs :=
                                       reconcile (node_id n) outputs (node_outputs n)\<rparr>) ed2
                  in case newGraph of
                       [] \<Rightarrow> (Threw (typeError ''name''), ed3)
                     | g # _ \<Rightarrow>
                         if \<not> priv_switchGraph ed3
                         then (Threw ''TypeError: this._switchGraph is not a function'',
                               ed3\<lparr>priv_graph := g\<rparr>)
                         else (Returned (),
                               ed3\<lparr>priv_graph := g,
                                   graphName := graph_name (graphs_h (heap ed3) g)\<rparr>))))"

section \<open>Document codec: save\<close>

text \<open>
  \<open>recurrentSubgraphSave\<close>: the \<open>graphState\<close> of a node that names a subgraph is
  pushed to \<open>state.subgraphs\<close> before the states nested in it, and every visited node
  loses its \<open>graphState\<close> field; the pushed object is the one whose nodes are
  stripped afterwards.  Reading \<open>node.graphState.nodes\<close> throws when the field is
  absent.
\<close>

fun recurrentSubgraphSave :: "node_state \<Rightarrow> (graph_state list \<times> node_state) result"
and saveEach :: "node_state list \<Rightarrow> (graph_state list \<times> node_state list) result"
where
  "recurrentSubgraphSave (NodeState i t n p ifs None g) =
     Returned ([], NodeState i t n p ifs None None)"
| "recurrentSubgraphSave (NodeState i t n p ifs (Some s) None) = Threw (typeError ''nodes'')"
| "recurrentSubgraphSave
     (NodeState i t n p ifs (Some s) (Some (GraphState gi gn nodes cs ins outs pan sc))) =
     (case saveEach nodes of
        Threw err \<Rightarrow> Threw err
      | Returned (subgraphs, nodes') \<Rightarrow>
          Returned (GraphState gi gn nodes' cs ins outs pan sc # subgraphs,
                    NodeState i t n p ifs (Some s) None))"
| "saveEach [] = Returned ([], [])"
| "saveEach (node # rest) =
     (case recurrentSubgraphSave node of
        Threw err \<Rightarrow> Threw err
      | Returned (subgraphs, node') \<Rightarrow>
         (case saveEach rest of
            Threw err \<Rightarrow> Threw err
          | Returned (subgraphs', rest') \<Rightarrow> Returned (subgraphs @ subgraphs', node' # rest')))"

text \<open>
  The document built from the serialized current graph (\<open>this.graph.save()\<close> with the
  panning and scaling of the live graph written over it).
\<close>

definition saveDocument :: "ident \<Rightarrow> graph_state \<Rightarrow> dataflow result" where
  "saveDocument currentGraphId graph =
     (case saveEach (gs_nodes graph) of
        Threw err \<Rightarrow> Threw err
      | Returned (subgraphs, nodes) \<Rightarrow>
          (let root = with_io None None (with_nodes nodes graph) in
           if subgraphs \<noteq> []
           then Returned \<lparr>df_graph = EntryGraph currentGraphId,
                          df_subgraphs = Some (subgraphs @ [root])\<rparr>
           else Returned \<lparr>df_graph = SingleGraph root, df_subgraphs = None\<rparr>))"

text \<open>
  \<open>save\<close>: leave every entered subgraph (\<open>leaveAll\<close>: one call of
  \<open>backFromSubgraph\<close> per frame of the copied stack), serialize the graph that is
  then current, and enter the subgraphs of the copied stack again (\<open>enterAll\<close>).
  \<open>switchToSubgraph\<close> returns nothing, so the check of its result never throws.
\<close>

definition leaveAll :: "env \<Rightarrow> editor \<Rightarrow> unit result \<times> editor" where
  "leaveAll env ed = forEach (\<lambda>_. backFromSubgraph env) (subgraphStack ed) ed"

definition enterAll :: "env \<Rightarrow> (ident \<times> nref) list \<Rightarrow> editor \<Rightarrow> unit result \<times> editor" where
  "enterAll env stackCopy ed =
     forEach (\<lambda>(_, subgraphNode). switchToSubgraph env subgraphNode) stackCopy ed"

definition serializedGraph :: "env \<Rightarrow> editor \<Rightarrow> graph_state" where
  "serializedGraph env ed =
     with_view (graph_panning (current_graph ed)) (graph_scaling (current_graph ed))
       (graph_save env (heap ed) (priv_graph ed))"

definition save :: "env \<Rightarrow> editor \<Rightarrow> dataflow result \<times> editor" where
  "save env ed0 =
     (let currentGraphId = graph_id (current_graph ed0);
          stackCopy = subgraphStack ed0
      in case leaveAll env ed0 of
           (Threw err, ed1) \<Rightarrow> (Threw err, ed1)
         | (Returned _, ed1) \<Rightarrow>
            (case saveDocument currentGraphId (serializedGraph env ed1) of
               Threw err \<Rightarrow> (Threw err, ed1)
             | Returned state \<Rightarrow>
                (case enterAll env stackCopy ed1 of
                   (Threw err, ed2) \<Rightarrow> (Threw err, ed2)
                 | (Returned _, ed2) \<Rightarrow> (Returned state, ed2))))"

section \<open>Document codec: load\<close>

definition expectedOneTemplate :: "node_state \<Rightarrow> nat \<Rightarrow> string" where
  "expectedOneTemplate node n =
     ''Expected exactly one template with ID '' @ interpolate (ns_name node) @ '', got '' @
     string_of_nat n"

definition multipleNodes :: "ident \<Rightarrow> string" where
  "multipleNodes s =
     ''Subgraph '' @ s @ '' has multiple nodes pointing to it - only unique IDs are allowed''"

definition noRootGraph :: string where
  "noRootGraph = ''No root graph found. Make sure you graph does not have any reccurency''"

definition noEntryGraph :: "ident \<Rightarrow> string" where
  "noEntryGraph entryId = ''No entry graph found of id '' @ quote @ entryId @ quote"

text \<open>
  \<open>recurrentSubgraphLoad\<close> with the set \<open>usedInstances\<close> threaded through the calls;
  \<open>loadEach\<close> is the \<open>forEach\<close> that collects the errors of the nodes of one graph.
  The first argument bounds the nesting depth: every level marks one more template as
  used, so \<open>load\<close> passes a bound the recursion cannot reach
  (\<open>loadEach_within_bound\<close> below).  A node that names a subgraph while
  \<open>state.subgraphs\<close> is absent makes \<open>state.subgraphs.filter\<close> throw.
\<close>

fun recurrentSubgraphLoad ::
  "nat \<Rightarrow> graph_state list option \<Rightarrow> ident set \<Rightarrow> node_state \<Rightarrow>
     (string list \<times> ident set \<times> node_state) result"
and loadEach ::
  "nat \<Rightarrow> graph_state list option \<Rightarrow> ident set \<Rightarrow> node_state list \<Rightarrow>
     (string list \<times> ident set \<times> node_state list) result"
where
  "recurrentSubgraphLoad 0 subgraphs usedInstances node = Threw rangeError"
| "recurrentSubgraphLoad (Suc k) subgraphs usedInstances node =
     (case ns_subgraph node of
        None \<Rightarrow> Returned ([], usedInstances, node)
      | Some s \<Rightarrow>
         (case subgraphs of
            None \<Rightarrow> Threw (typeError ''filter'')
          | Some templates \<Rightarrow>
             (let fittingTemplate = filter (\<lambda>template. gs_id template = s) templates in
              if length fittingTemplate \<noteq> 1
              then Returned ([expectedOneTemplate node (length fittingTemplate)],
                             usedInstances, node)
              else if s \<in> usedInstances
              then Returned ([multipleNodes s], usedInstances, node)
              else (case loadEach k subgraphs (insert s usedInstances)
                           (gs_nodes (hd fittingTemplate)) of
                      Threw err \<Rightarrow> Threw err
                    | Returned (errors, used, ns) \<Rightarrow>
                        Returned (errors, used,
                          with_graphState (Some (with_nodes ns (hd fittingTemplate))) node)))))"
| "loadEach k subgraphs usedInstances [] = Returned ([], usedInstances, [])"
| "loadEach k subgraphs usedInstances (n # ns) =
     (case recurrentSubgraphLoad k subgraphs usedInstances n of
        Threw err \<Rightarrow> Threw err
      | Returned (errors, used, n') \<Rightarrow>
         (case loadEach k subgraphs used ns of
            Threw err \<Rightarrow> Threw err
          | Returned (errors', used', ns') \<Rightarrow> Returned (errors @ errors', used', n' # ns')))"

definition nestingBound :: "graph_state list option \<Rightarrow> nat" where
  "nestingBound subgraphs = Suc (case subgraphs of None \<Rightarrow> 0 | Some templates \<Rightarrow> length templates)"

text \<open>The identifiers of the templates of the document.\<close>

definition templateIds :: "graph_state list option \<Rightarrow> ident set" where
  "templateIds subgraphs =
     (case subgraphs of None \<Rightarrow> {} | Some templates \<Rightarrow> set (map gs_id templates))"

text \<open>The identifiers named by the \<open>subgraph\<close> field of any node of any template.\<close>

definition usedSubgraphs :: "graph_state list \<Rightarrow> ident set" where
  "usedSubgraphs subgraphs = set (List.map_filter ns_subgraph (concat (map gs_nodes subgraphs)))"

definition findRootGraph :: "graph_state list \<Rightarrow> graph_state option" where
  "findRootGraph subgraphs =
     find (\<lambda>subgraph. gs_id subgraph \<notin> usedSubgraphs subgraphs) subgraphs"

text \<open>
  The depth-first search of \<open>load\<close> for the nodes that lead to the entry graph.  It
  walks live objects; the call stack of the engine bounds its depth.
\<close>

fun dfs :: "nat \<Rightarrow> heap \<Rightarrow> ident \<Rightarrow> gref \<Rightarrow> nref list \<Rightarrow> nref list result"
and dfs_nodes :: "nat \<Rightarrow> heap \<Rightarrow> ident \<Rightarrow> nref list \<Rightarrow> nref list \<Rightarrow> nref list result"
where
  "dfs 0 h entryId subgraph path = Threw rangeError"
| "dfs (Suc k) h entryId subgraph path =
     dfs_nodes k h entryId (graph_nodes (graphs_h h subgraph)) path"
| "dfs_nodes k h entryId [] path = Returned []"
| "dfs_nodes k h entryId (r # rs) path =
     (case node_subgraph (nodes_h h r) of
        None \<Rightarrow> dfs_nodes k h entryId rs path
      | Some sub \<Rightarrow>
          if graph_id (graphs_h h sub) = entryId then Returned (path @ [r])
          else (case dfs k h entryId sub (path @ [r]) of
                  Threw err \<Rightarrow> Threw err
                | Returned returnedPath \<Rightarrow>
                    if returnedPath \<noteq> [] then Returned returnedPath
                    else dfs_nodes k h entryId rs path))"

text \<open>
  The end of \<open>load\<close>, after the read-only flag has been restored: replaying the path
  to the entry graph, the layout, and the view transform.  A throw here rejects the
  promise.
\<close>

definition applyView :: "env \<Rightarrow> position option \<Rightarrow> real option \<Rightarrow> editor \<Rightarrow> editor" where
  "applyView env panning scaling ed =
     (let ed1 = (case panning of None \<Rightarrow> ed
                 | Some p \<Rightarrow> upd_graph (priv_graph ed) (\<lambda>g. g\<lparr>graph_panning := Some p\<rparr>) ed);
          ed2 = (case scaling of None \<Rightarrow> ed1
                 | Some s \<Rightarrow> upd_graph (priv_graph ed1) (\<lambda>g. g\<lparr>graph_scaling := Some s\<rparr>) ed1)
      in if scaling = None \<and> panning = None then centerZoom env ed2 else ed2)"

definition enterEntryGraph :: "env \<Rightarrow> dataflow \<Rightarrow> editor \<Rightarrow> unit result \<times> editor" where
  "enterEntryGraph env state ed =
     (case df_graph state of
        SingleGraph _ \<Rightarrow> (Returned (), ed)
      | EntryGraph entryId \<Rightarrow>
          (case dfs (callStackLimit env) (heap ed) entryId (priv_graph ed) [] of
             Threw err \<Rightarrow> (Threw err, ed)
           | Returned path \<Rightarrow> forEach (switchToSubgraph env) path ed))"

definition finishLoad ::
  "env \<Rightarrow> dataflow \<Rightarrow> position option \<Rightarrow> real option \<Rightarrow> string list \<Rightarrow> editor \<Rightarrow>
     string list promise \<times> editor"
where
  "finishLoad env state panning scaling errors ed =
     (case enterEntryGraph env state ed of
        (Threw err, ed1) \<Rightarrow> (Rejected err, ed1)
      | (Returned _, ed1) \<Rightarrow>
          (case (if activeAlgorithm env \<noteq> ''NoLayout'' then applyAutolayout env False ed1
                 else (Returned (), ed1)) of
             (Threw err, ed2) \<Rightarrow> (Rejected err, ed2)
           | (Returned _, ed2) \<Rightarrow> (Resolved errors, applyView env panning scaling ed2)))"

text \<open>
  The \<open>try\<close> block of \<open>load\<close> and what follows it.  \<open>rootGraph\<close> and
  \<open>entryGraph\<close> are the graphs chosen before; no hook is tapped on \<open>hooks.load\<close> in
  the sources, so \<open>state\<close> passes through it unchanged.
\<close>

definition loadGraphs ::
  "env \<Rightarrow> bool \<Rightarrow> dataflow \<Rightarrow> graph_state \<Rightarrow> graph_state \<Rightarrow> editor \<Rightarrow>
     string list promise \<times> editor"
where
  "loadGraphs env readonlySetting state rootGraph entryGraph ed =
     (case loadEach (nestingBound (df_subgraphs state)) (df_subgraphs state) {}
             (gs_nodes rootGraph) of
        Threw err \<Rightarrow> (Resolved [err], set_readonly readonlySetting (cleanEditor ed))
      | Returned (errors, _, ns) \<Rightarrow>
          if errors \<noteq> [] then (Resolved errors, ed)
          else
            (case graph_load env (heap ed) (priv_graph ed)
                    (with_io (Some []) (Some []) (with_nodes ns rootGraph)) of
               LoadThrew err h registered \<Rightarrow>
                 (Resolved [err],
                  set_readonly readonlySetting
                    (cleanEditor (ed\<lparr>heap := h, graphs := graphs ed @ registered\<rparr>)))
             | LoadReturned errors' h registered \<Rightarrow>
                 (let ed1 = ed\<lparr>heap := h, graphs := graphs ed @ registered\<rparr> in
                  if errors' \<noteq> [] \<and> \<not> devMode env
                  then (Resolved errors', set_readonly readonlySetting (cleanEditor ed1))
                  else finishLoad env state (gs_panning entryGraph) (gs_scaling entryGraph)
                         errors'
                         (set_readonly readonlySetting
                            (ed1\<lparr>graphName := gs_name entryGraph\<rparr>)))))"

definition load :: "env \<Rightarrow> dataflow \<Rightarrow> editor \<Rightarrow> string list promise \<times> editor" where
  "load env state ed0 =
     (let ed1 = unregisterGraphs ed0;
          readonlySetting = readonly ed1;
          ed = set_readonly True ed1
      in case df_graph state of
           EntryGraph entryId \<Rightarrow>
             (case df_subgraphs state of
                None \<Rightarrow> (Rejected (typeError ''forEach''), ed)
              | Some subgraphs \<Rightarrow>
                 (case findRootGraph subgraphs of
                    None \<Rightarrow> (Resolved [noRootGraph], ed)
                  | Some rootGraph \<Rightarrow>
                     (case find (\<lambda>subgraph. gs_id subgraph = entryId) subgraphs of
                        None \<Rightarrow> (Resolved [noEntryGraph entryId], ed)
                      | Some entryGraph \<Rightarrow>
                          loadGraphs env readonlySetting state rootGraph entryGraph ed)))
         | SingleGraph graph \<Rightarrow> loadGraphs env readonlySetting state graph graph ed)"

section \<open>Node types and graph templates\<close>

text \<open>
  \<open>_nodeTypes\<close> is a \<open>Map\<close> from type name to registration, \<open>_graphTemplates\<close> an
  array.  No listener prevents the events that \<open>registerNodeType\<close>,
  \<open>unregisterNodeType\<close> and \<open>addGraphTemplate\<close> emit.
\<close>

record register_options =
  opt_category :: "string option"
  opt_title :: "string option"
  opt_isCategory :: "bool option"

definition registerNodeType :: "node_class \<Rightarrow> register_options option \<Rightarrow> editor \<Rightarrow> editor" where
  "registerNodeType type options ed =
     ed\<lparr>priv_nodeTypes :=
          set_property (nc_type type)
            \<lparr>nt_type = type,
             nt_category = (case Option.bind options opt_category of
                              None \<Rightarrow> ''default'' | Some c \<Rightarrow> c),
             nt_title = (case Option.bind options opt_title of
                           None \<Rightarrow> nc_title type | Some t \<Rightarrow> t),
             nt_isCategory = (case Option.bind options opt_isCategory of
                                None \<Rightarrow> False | Some b \<Rightarrow> b)\<rparr>
            (priv_nodeTypes ed)\<rparr>"

definition unregisterNodeType :: "string \<Rightarrow> editor \<Rightarrow> editor" where
  "unregisterNodeType type ed =
     (if type \<in> set (map fst (priv_nodeTypes ed))
      then ed\<lparr>priv_nodeTypes := delete_property type (priv_nodeTypes ed)\<rparr>
      else ed)"

definition GRAPH_NODE_TYPE_PREFIX :: string where
  "GRAPH_NODE_TYPE_PREFIX = ''__baklava_GraphNode-''"

definition addGraphTemplate :: "env \<Rightarrow> graph_state \<Rightarrow> string \<Rightarrow> string \<Rightarrow> editor \<Rightarrow> editor" where
  "addGraphTemplate env template category type ed =
     (if GRAPH_NODE_TYPE_PREFIX @ gs_id template \<in> set (map fst (priv_nodeTypes ed)) then ed
      else registerNodeType (createCustomGraphNodeType env template type)
             (Some \<lparr>opt_category = Some category, opt_title = gs_name template,
                    opt_isCategory = None\<rparr>)
             (ed\<lparr>priv_graphTemplates := priv_graphTemplates ed @ [template]\<rparr>))"

section \<open>The editor manager\<close>

text \<open>
  \<open>document_head\<close> lists the style elements of the page as identifier and text;
  \<open>nodeInterfaceTypes\<close> are the names of the interface types registered with the
  view.
\<close>

record editor_manager =
  em_editor :: editor
  specificationLoaded :: bool
  nodeInterfaceTypes :: "string list"
  document_head :: "(string \<times> string) list"

definition interfacesStyleId :: string where
  "interfacesStyleId = ''interfaces-style''"

definition dquote :: string where
  "dquote = [CHR 0x22]"

definition removeInterfacesStyle :: "editor_manager \<Rightarrow> editor_manager" where
  "removeInterfacesStyle em =
     (case find (\<lambda>(i, _). i = interfacesStyleId) (document_head em) of
        None \<Rightarrow> em
      | Some styleSheet \<Rightarrow> em\<lparr>document_head := remove1 styleSheet (document_head em)\<rparr>)"

definition interfaceRule :: "string \<times> string \<Rightarrow> string" where
  "interfaceRule entry =
     ''.baklava-node-interface[data-interface-type='' @ dquote @ fst entry @ dquote @
     ''] .__port { background-color: '' @ snd entry @ ''; }''"

definition updateInterfacesStyle :: "metadata \<Rightarrow> editor_manager \<Rightarrow> editor_manager" where
  "updateInterfacesStyle metadata em =
     (case md_interfaces metadata of
        None \<Rightarrow> em
      | Some interfaces \<Rightarrow>
          em\<lparr>document_head :=
               document_head em @ [(interfacesStyleId, concat (map interfaceRule interfaces))]\<rparr>)"

text \<open>
  \<open>EditorManager.cleanEditor\<close>: the connections and nodes of the current graph, every
  registered node type, and the interfaces stylesheet.
\<close>

definition cleanEditor_manager :: "editor_manager \<Rightarrow> editor_manager" where
  "cleanEditor_manager em =
     (let ed1 = removeAllNodes (removeAllConnections (em_editor em));
          ed2 = fold unregisterNodeType (map fst (priv_nodeTypes ed1)) ed1
      in removeInterfacesStyle (em\<lparr>em_editor := ed2\<rparr>))"

definition addTypes :: "string list \<Rightarrow> string list \<Rightarrow> string list" where
  "addTypes new types = fold (\<lambda>t ts. if t \<in> set ts then ts else ts @ [t]) new types"

definition registerSpecNode :: "env \<Rightarrow> string list \<Rightarrow> spec_node \<Rightarrow> editor \<Rightarrow> editor" where
  "registerSpecNode env interfaceTypes node ed =
     registerNodeType (nodeFactory env node interfaceTypes)
       (Some \<lparr>opt_category = sn_category node, opt_title = Some (sn_name node),
              opt_isCategory = None\<rparr>) ed"

definition updateEditorSpecification ::
  "env \<Rightarrow> dataflow_specification option \<Rightarrow> editor_manager \<Rightarrow> editor_manager"
where
  "updateEditorSpecification env dataflowSpecification em0 =
     (case dataflowSpecification of
        None \<Rightarrow> em0
      | Some spec \<Rightarrow>
         (let em1 = (if specificationLoaded em0 then cleanEditor_manager em0 else em0);
              interfaceTypes = readInterfaceTypes env (spec_nodes spec);
              em2 = em1\<lparr>nodeInterfaceTypes := addTypes interfaceTypes (nodeInterfaceTypes em1)\<rparr>;
              em3 = updateInterfacesStyle (spec_metadata spec) em2;
              ed1 = fold (registerSpecNode env interfaceTypes) (spec_nodes spec) (em_editor em3);
              ed2 = set_readonly (case md_readonly (spec_metadata spec) of
                                    None \<Rightarrow> False | Some b \<Rightarrow> b) ed1;
              ed3 = ed2\<lparr>allowLoopbacks := (case md_allowLoopbacks (spec_metadata spec) of
                                              None \<Rightarrow> False | Some b \<Rightarrow> b)\<rparr>
          in em3\<lparr>em_editor := ed3, specificationLoaded := True\<rparr>))"

definition saveDataflow :: "env \<Rightarrow> editor_manager \<Rightarrow> dataflow result \<times> editor_manager" where
  "saveDataflow env em =
     (fst (save env (em_editor em)), em\<lparr>em_editor := snd (save env (em_editor em))\<rparr>)"

definition try_catch :: "'a result \<Rightarrow> (string \<Rightarrow> 'a) \<Rightarrow> 'a" where
  "try_catch body handler = (case body of Threw err \<Rightarrow> handler err | Returned v \<Rightarrow> v)"

text \<open>
  \<open>loadDataflow\<close> returns the promise of the \<open>async\<close> method \<open>load\<close> from inside
  a \<open>try\<close> without awaiting it.  Calling an \<open>async\<close> function never throws: whatever
  its body throws rejects the promise it has returned.
\<close>

definition loadDataflow ::
  "env \<Rightarrow> dataflow \<Rightarrow> editor_manager \<Rightarrow> string list promise \<times> editor_manager"
where
  "loadDataflow env dataflow em =
     try_catch
       (Returned (fst (load env dataflow (em_editor em)),
                  em\<lparr>em_editor := snd (load env dataflow (em_editor em))\<rparr>))
       (\<lambda>err. (Resolved [''Unrecognized format. Make sure that the passed dataflow is correct.'',
                          err], em))"

section \<open>Inlining a subgraph\<close>

text \<open>
  \<open>graph.addNode\<close> and \<open>graph.addConnection\<close> of the graph model, with no listener
  preventing them and no acceptance check: the node is appended to the graph, the
  connection joins the two interfaces it is given.
\<close>

definition addNode :: "nref \<Rightarrow> graph_obj \<Rightarrow> graph_obj" where
  "addNode r g = g\<lparr>graph_nodes := graph_nodes g @ [r]\<rparr>"

definition addConnection :: "node_interface \<Rightarrow> node_interface \<Rightarrow> graph_obj \<Rightarrow> graph_obj" where
  "addConnection from to g =
     g\<lparr>graph_connections := graph_connections g @ [\<lparr>conn_from = from, conn_to = to\<rparr>]\<rparr>"

definition nodeInterfaces :: "node_obj \<Rightarrow> node_interface list" where
  "nodeInterfaces n = map snd (node_inputs n) @ map snd (node_outputs n)"

definition findInterface ::
  "editor \<Rightarrow> ident \<Rightarrow> ident \<Rightarrow> ident option \<Rightarrow> node_interface option"
where
  "findInterface ed nodeId intfId subgraphNodeId =
     (case find (\<lambda>r. node_id (nodes_h (heap ed) r) = nodeId) (graph_nodes (current_graph ed)) of
        None \<Rightarrow> None
      | Some r \<Rightarrow>
         (case find (\<lambda>intf. intf_id intf = intfId) (nodeInterfaces (nodes_h (heap ed) r)) of
            Some foundIntf \<Rightarrow> Some foundIntf
          | None \<Rightarrow>
             (case subgraphNodeId of
                None \<Rightarrow> None
              | Some i \<Rightarrow>
                  if i = [] then None
                  else find (\<lambda>intf. intf_subgraphNodeId intf = Some i)
                         (nodeInterfaces (nodes_h (heap ed) r)))))"

text \<open>
  The object \<open>subgraphNodeToNode\<close>: for an interface of the subgraph node, the
  interface at the other end of the first connection of the subgraph that touches the
  boundary marker named by its \<open>subgraphNodeId\<close>.  (The identifiers of interfaces
  are not names of properties of \<open>Map.prototype\<close>.)
\<close>

definition mapInput ::
  "connection list \<Rightarrow> node_interface \<Rightarrow> (string \<times> ident \<times> ident) list \<Rightarrow>
     (string \<times> ident \<times> ident) list"
where
  "mapInput connections input m =
     (case find (\<lambda>c. Some (intf_id (conn_from c)) = intf_subgraphNodeId input) connections of
        Some c \<Rightarrow> set_property (intf_id input) (intf_nodeId (conn_to c), intf_id (conn_to c)) m
      | None \<Rightarrow>
         (case find (\<lambda>c. Some (intf_id (conn_to c)) = intf_subgraphNodeId input) connections of
            Some c \<Rightarrow>
              set_property (intf_id input) (intf_nodeId (conn_from c), intf_id (conn_from c)) m
          | None \<Rightarrow> m))"

definition mapOutput ::
  "connection list \<Rightarrow> node_interface \<Rightarrow> (string \<times> ident \<times> ident) list \<Rightarrow>
     (string \<times> ident \<times> ident) list"
where
  "mapOutput connections output m =
     (case find (\<lambda>c. Some (intf_id (conn_to c)) = intf_subgraphNodeId output) connections of
        Some c \<Rightarrow>
          set_property (intf_id output) (intf_nodeId (conn_from c), intf_id (conn_from c)) m
      | None \<Rightarrow> m)"

definition subgraphNodeToNode ::
  "node_obj \<Rightarrow> connection list \<Rightarrow> (string \<times> ident \<times> ident) list"
where
  "subgraphNodeToNode node connections =
     fold (mapOutput connections) (map snd (node_outputs node))
       (fold (mapInput connections) (map snd (node_inputs node)) [])"

text \<open>
  The centre of the copied nodes: \<open>reduce\<close> adds the coordinates to \<open>0\<close> and the sum
  is divided by the number of nodes.  Without nodes the sum is \<open>0\<close>, and \<open>0 / 0\<close> is
  \<open>NaN\<close>.
\<close>

definition mean :: "number list \<Rightarrow> number" where
  "mean values =
     (case foldl n_add (Num 0) values of
        NaN \<Rightarrow> NaN
      | Num s \<Rightarrow> if length values = 0 then NaN else Num (s / real (length values)))"

definition copiedNodes :: "env \<Rightarrow> heap \<Rightarrow> gref \<Rightarrow> nref list" where
  "copiedNodes env h subgraph =
     filter (\<lambda>r. node_type (nodes_h h r) \<notin> set (subgraphTypes env))
       (graph_nodes (graphs_h h subgraph))"

definition resetCount :: "string \<times> node_interface \<Rightarrow> string \<times> node_interface" where
  "resetCount entry = (fst entry, (snd entry)\<lparr>intf_connectionCount := 0\<rparr>)"

definition translate :: "position \<Rightarrow> number \<Rightarrow> number \<Rightarrow> position \<Rightarrow> position" where
  "translate nodePosition meanX meanY p =
     \<lparr>pos_x = n_add (pos_x p) (n_sub (pos_x nodePosition) meanX),
      pos_y = n_add (pos_y p) (n_sub (pos_y nodePosition) meanY)\<rparr>"

text \<open>
  One round of the loop that copies a node of the subgraph into the current graph: the
  position is remembered, the node is added, moved by the offset of the subgraph node
  from the centre, selected, and its connection counters are reset.  Reading
  \<open>position.x\<close> throws when a position is absent.
\<close>

definition copyNode :: "nref \<Rightarrow> number \<Rightarrow> number \<Rightarrow> nref \<Rightarrow> editor \<Rightarrow> unit result \<times> editor" where
  "copyNode node meanX meanY r ed =
     (case node_position (nodes_h (heap ed) r) of
        None \<Rightarrow> (Threw (typeError ''x''), ed)
      | Some p \<Rightarrow>
         (let ed1 = ed\<lparr>subgraphNodePositions :=
                        (subgraphNodePositions ed)(node_id (nodes_h (heap ed) r) \<mapsto> p)\<rparr>;
              ed2 = upd_graph (priv_graph ed1) (addNode r) ed1
          in case node_position (nodes_h (heap ed2) node) of
               None \<Rightarrow> (Threw (typeError ''x''), ed2)
             | Some nodePosition \<Rightarrow>
                 (Returned (),
                  upd_node r (\<lambda>n. n\<lparr>node_inputs := map resetCount (node_inputs n),
                                     node_outputs := map resetCount (node_outputs n)\<rparr>)
                    (upd_graph (priv_graph ed2)
                       (\<lambda>g. g\<lparr>graph_selectedNodes := graph_selectedNodes g @ [r]\<rparr>)
                       (upd_node r
                          (\<lambda>n. n\<lparr>node_position :=
                                   Some (translate nodePosition meanX meanY p)\<rparr>)
                          ed2)))))"

text \<open>
  One round of the loop that creates connections: a connection with an endpoint named
  \<open>Connection\<close> is skipped; each endpoint is looked up in \<open>subgraphNodeToNode\<close> by
  its identifier; the connection is added when \<open>findInterface\<close> finds both ends in
  the current graph.
\<close>

definition resolve :: "(string \<times> ident \<times> ident) list \<Rightarrow> node_interface \<Rightarrow> ident \<times> ident" where
  "resolve m endpoint =
     (case map_of m (intf_id endpoint) of
        Some target \<Rightarrow> target
      | None \<Rightarrow> (intf_nodeId endpoint, intf_id endpoint))"

definition reconnect :: "(string \<times> ident \<times> ident) list \<Rightarrow> connection \<Rightarrow> editor \<Rightarrow> editor" where
  "reconnect m connection ed =
     (if intf_name (conn_from connection) = ''Connection'' \<or>
         intf_name (conn_to connection) = ''Connection'' then ed
      else
        (case findInterface ed (fst (resolve m (conn_from connection)))
                (snd (resolve m (conn_from connection))) None of
           None \<Rightarrow> ed
         | Some foundFrom \<Rightarrow>
            (case findInterface ed (fst (resolve m (conn_to connection)))
                    (snd (resolve m (conn_to connection))) None of
               None \<Rightarrow> ed
             | Some foundTo \<Rightarrow> upd_graph (priv_graph ed) (addConnection foundFrom foundTo) ed)))"

definition unwrapSubgraph :: "env \<Rightarrow> nref \<Rightarrow> editor \<Rightarrow> unit result \<times> editor" where
  "unwrapSubgraph env node ed =
     (case node_subgraph (nodes_h (heap ed) node) of
        None \<Rightarrow> (Threw (typeError ''connections''), ed)
      | Some subgraph \<Rightarrow>
         (let connections = graph_connections (graphs_h (heap ed) subgraph);
              m = subgraphNodeToNode (nodes_h (heap ed) node) connections;
              subgraphNodes = copiedNodes env (heap ed) subgraph;
              positions = map (\<lambda>r. node_position (nodes_h (heap ed) r)) subgraphNodes
          in if None \<in> set positions then (Threw (typeError ''x''), ed)
             else
               (let meanX = mean (map pos_x (List.map_filter id positions));
                    meanY = mean (map pos_y (List.map_filter id positions));
                    ed1 = upd_graph (priv_graph ed) (\<lambda>g. g\<lparr>graph_selectedNodes := []\<rparr>) ed
                in case forEach (copyNode node meanX meanY) subgraphNodes ed1 of
                     (Threw err, ed2) \<Rightarrow> (Threw err, ed2)
                   | (Returned _, ed2) \<Rightarrow>
                      (let subgraphNodeConnections =
                             filter (touches (node_id (nodes_h (heap ed2) node)))
                               (graph_connections (current_graph ed2));
                           ed3 = upd_graph (priv_graph ed2) (removeNode (heap ed2) node) ed2
                       in (Returned (),
                           fold (reconnect m) (connections @ subgraphNodeConnections) ed3)))))"

definition isInSubgraph :: "editor \<Rightarrow> bool" where
  "isInSubgraph ed = (length (subgraphStack ed) > 0)"

text \<open>
  An interface is owned by the current graph when it is an interface of one of its
  nodes.  A subgraph is a pass-through for its node when it holds only boundary markers,
  the connections of the subgraph end on nodes that are not in the current graph, and
  the subgraph node is the one node of the current graph with its identifier.
\<close>

definition ownedInterface :: "editor \<Rightarrow> node_interface \<Rightarrow> bool" where
  "ownedInterface ed intf =
     list_ex (\<lambda>r. intf \<in> set (nodeInterfaces (nodes_h (heap ed) r)))
       (graph_nodes (current_graph ed))"

definition nodeIds :: "editor \<Rightarrow> ident set" where
  "nodeIds ed = set (map (\<lambda>r. node_id (nodes_h (heap ed) r)) (graph_nodes (current_graph ed)))"

definition passThrough :: "env \<Rightarrow> nref \<Rightarrow> editor \<Rightarrow> bool" where
  "passThrough env node ed =
     (case node_subgraph (nodes_h (heap ed) node) of
        None \<Rightarrow> False
      | Some subgraph \<Rightarrow>
          copiedNodes env (heap ed) subgraph = [] \<and>
          list_all (\<lambda>c. intf_nodeId (conn_from c) \<notin> nodeIds ed \<and>
                         intf_nodeId (conn_to c) \<notin> nodeIds ed)
            (graph_connections (graphs_h (heap ed) subgraph)) \<and>
          filter (\<lambda>r. node_id (nodes_h (heap ed) r) = node_id (nodes_h (heap ed) node))
            (graph_nodes (current_graph ed)) = [node])"


section \<open>Entering and leaving without edits\<close>




section \<open>Well-formed navigation stacks\<close>

text \<open>
  The stack that a sequence of \<open>switchToSubgraph\<close> calls builds: every frame holds
  the identifier of the graph that was current when its node was entered, which is the
  subgraph of the node of the frame below, and the current graph is the subgraph of the
  node of the top frame.
\<close>

fun nav_chain :: "heap \<Rightarrow> (ident \<times> nref) list \<Rightarrow> gref \<Rightarrow> bool" where
  "nav_chain h [] cur = True"
| "nav_chain h [(i, n)] cur = (node_subgraph (nodes_h h n) = Some cur)"
| "nav_chain h ((i, n) # (j, m) # rest) cur =
     (case node_subgraph (nodes_h h n) of
        None \<Rightarrow> False
      | Some s \<Rightarrow> graph_id (graphs_h h s) = j \<and> nav_chain h ((j, m) # rest) cur)"

definition same_links :: "heap \<Rightarrow> heap \<Rightarrow> bool" where
  "same_links h h' =
     ((\<forall>g. graph_id (graphs_h h' g) = graph_id (graphs_h h g)) \<and>
      (\<forall>n. node_subgraph (nodes_h h' n) = node_subgraph (nodes_h h n)))"

section \<open>Round trip of the document\<close>

text \<open>
  The graph state that \<open>load\<close> passes to \<open>this._graph.load\<close>: the root chosen by
  root detection (in the multi-graph form only when the entry graph is found as well),
  with the nodes that \<open>recurrentSubgraphLoad\<close> has instantiated and with empty
  \<open>inputs\<close> and \<open>outputs\<close>.  There is none when \<open>load\<close> ends before that call.
\<close>

definition loadedTree :: "dataflow \<Rightarrow> graph_state option" where
  "loadedTree state =
     (case (case df_graph state of
              EntryGraph entryId \<Rightarrow>
                (case df_subgraphs state of
                   None \<Rightarrow> None
                 | Some subgraphs \<Rightarrow>
                    (case findRootGraph subgraphs of
                       None \<Rightarrow> None
                     | Some rootGraph \<Rightarrow>
                        (case find (\<lambda>subgraph. gs_id subgraph = entryId) subgraphs of
                           None \<Rightarrow> None
                         | Some entryGraph \<Rightarrow> Some rootGraph)))
            | SingleGraph graph \<Rightarrow> Some graph) of
        None \<Rightarrow> None
      | Some rootGraph \<Rightarrow>
          (case loadEach (nestingBound (df_subgraphs state)) (df_subgraphs state) {}
                  (gs_nodes rootGraph) of
             Threw err \<Rightarrow> None
           | Returned (errors, _, ns) \<Rightarrow>
               if errors \<noteq> [] then None
               else Some (with_io (Some []) (Some []) (with_nodes ns rootGraph))))"

text \<open>
  The identifiers of the graphs of an instantiated tree: the root and every graph state
  that \<open>recurrentSubgraphSave\<close> collects from it.
\<close>

definition treeIds :: "graph_state \<Rightarrow> ident list" where
  "treeIds graph =
     gs_id graph #
     (case saveEach (gs_nodes graph) of
        Threw err \<Rightarrow> []
      | Returned (subgraphs, _) \<Rightarrow> map gs_id subgraphs)"

text \<open>
  Modelled from the spec: a structurally valid document is in one of the two persisted
  forms, the single \<open>{graph}\<close> object or \<open>{graph: {entryGraph}, subgraphs}\<close>, and
  "persisted documents reference templates by id only, never embed them": no node of
  the document carries a \<open>graphState\<close>.
\<close>

definition documentNodes :: "dataflow \<Rightarrow> node_state list" where
  "documentNodes state =
     (case df_graph state of SingleGraph graph \<Rightarrow> gs_nodes graph | EntryGraph _ \<Rightarrow> []) @
     (case df_subgraphs state of None \<Rightarrow> [] | Some subgraphs \<Rightarrow> concat (map gs_nodes subgraphs))"

definition persisted :: "dataflow \<Rightarrow> bool" where
  "persisted state =
     (list_all (\<lambda>n. ns_graphState n = None) (documentNodes state) \<and>
      (case df_graph state of
         SingleGraph _ \<Rightarrow> df_subgraphs state = None
       | EntryGraph _ \<Rightarrow> df_subgraphs state \<noteq> None))"

text \<open>
  An instantiated node: it names a subgraph exactly when it carries a \<open>graphState\<close>,
  the \<open>graphState\<close> has the identifier it names, and the same holds inside.
\<close>

fun linkedNode :: "node_state \<Rightarrow> bool"
and linkedNodes :: "node_state list \<Rightarrow> bool"
where
  "linkedNode (NodeState i t n p ifs None g) = (g = None)"
| "linkedNode (NodeState i t n p ifs (Some s) None) = False"
| "linkedNode (NodeState i t n p ifs (Some s) (Some (GraphState gi gn nodes cs ins outs pan sc))) =
     (gi = s \<and> linkedNodes nodes)"
| "linkedNodes [] = True"
| "linkedNodes (node # rest) = (linkedNode node \<and> linkedNodes rest)"

section \<open>Sample inputs\<close>

text \<open>
  A freshly constructed editor: one registered, empty graph, no registered node type.
\<close>

definition blankGraph :: graph_obj where
  "blankGraph =
     \<lparr>graph_id = ''g0'', graph_name = None, graph_nodes = [], graph_connections = [],
      graph_inputs = [], graph_outputs = [], graph_panning = None, graph_scaling = None,
      graph_selectedNodes = []\<rparr>"

definition blankNode :: node_obj where
  "blankNode =
     \<lparr>node_id = [], node_type = [], node_position = None, node_inputs = [],
      node_outputs = [], node_subgraph = None\<rparr>"

definition newEditor :: editor where
  "newEditor =
     \<lparr>preview = False, priv_readonly = False, allowLoopbacks = False, subgraphStack = [],
      subgraphNodePositions = Map.empty, priv_graph = 0, graphs = [0],
      priv_switchGraph = False, graphName = None, priv_nodeTypes = [],
      priv_graphTemplates = [],
      heap = \<lparr>nodes_h = (\<lambda>_. blankNode), graphs_h = (\<lambda>_. blankGraph)\<rparr>\<rparr>"

text \<open>
  The environment of the command-line validator before any specification is applied:
  no DOM, no layout algorithm, no registered node type.  Its graph model loads a graph
  without nodes and reports any other graph as incompatible; its interface functions
  leave interfaces as they are; a node class is named after its specification entry and
  the node class of a template after the template.
\<close>

definition headlessGraphLoad :: "heap \<Rightarrow> gref \<Rightarrow> graph_state \<Rightarrow> load_outcome" where
  "headlessGraphLoad h g state =
     (if gs_nodes state = [] \<and> gs_connections state = []
      then LoadReturned []
             (h\<lparr>graphs_h := (graphs_h h)(g :=
                 \<lparr>graph_id = gs_id state, graph_name = gs_name state, graph_nodes = [],
                  graph_connections = [],
                  graph_inputs = (case gs_inputs state of None \<Rightarrow> [] | Some is \<Rightarrow> is),
                  graph_outputs = (case gs_outputs state of None \<Rightarrow> [] | Some os \<Rightarrow> os),
                  graph_panning = gs_panning state, graph_scaling = gs_scaling state,
                  graph_selectedNodes = []\<rparr>)\<rparr>) []
      else LoadReturned [''Node type is not registered''] h [])"

definition headlessGraphSave :: "heap \<Rightarrow> gref \<Rightarrow> graph_state" where
  "headlessGraphSave h g =
     GraphState (graph_id (graphs_h h g)) (graph_name (graphs_h h g)) [] []
       (Some (graph_inputs (graphs_h h g))) (Some (graph_outputs (graphs_h h g)))
       (graph_panning (graphs_h h g)) (graph_scaling (graphs_h h g))"

definition headless :: env where
  "headless =
     \<lparr>devMode = False, callStackLimit = 8, graph_load = headlessGraphLoad,
      graph_save = headlessGraphSave,
      propagateInterfaces = (\<lambda>owner n. (node_inputs n, node_outputs n)),
      updateInterfaces = (\<lambda>g ns. (graph_inputs g, graph_outputs g)),
      applySidePositions = (\<lambda>ins outs. Inr (ins, outs)),
      activeAlgorithm = ''NoLayout'', computeLayout = (\<lambda>state. state),
      hasDocument = False,
      fitToView = (\<lambda>h g. (\<lparr>pos_x = Num 0, pos_y = Num 0\<rparr>, 1)),
      nodeFactory = (\<lambda>node types. \<lparr>nc_type = sn_name node, nc_title = sn_name node\<rparr>),
      readInterfaceTypes = (\<lambda>nodes. remdups (map snd (concat (map sn_inputs nodes @ map sn_outputs nodes)))),
      createCustomGraphNodeType =
        (\<lambda>template type. \<lparr>nc_type = GRAPH_NODE_TYPE_PREFIX @ gs_id template,
                            nc_title = interpolate (gs_name template)\<rparr>),
      subgraphTypes = [''__baklava_SubgraphInoutNode'', ''__baklava_SubgraphInputNode'',
                       ''__baklava_SubgraphOutputNode'']\<rparr>"

definition emptyTemplate :: "ident \<Rightarrow> graph_state" where
  "emptyTemplate i = GraphState i None [] [] None None None None"

definition subgraphNode :: "ident \<Rightarrow> ident \<Rightarrow> node_state" where
  "subgraphNode i s = NodeState i ''subgraph'' (Some i) None [] (Some s) None"

definition templateWith :: "ident \<Rightarrow> node_state list \<Rightarrow> graph_state" where
  "templateWith i ns = GraphState i None ns [] None None None None"


text \<open>Two templates that reference each other: no template is unreferenced.\<close>

definition mutualTemplates :: dataflow where
  "mutualTemplates =
     \<lparr>df_graph = EntryGraph ''A'',
      df_subgraphs = Some [templateWith ''A'' [subgraphNode ''a1'' ''B''],
                           templateWith ''B'' [subgraphNode ''b1'' ''A'']]\<rparr>"

text \<open>A root whose two nodes name the same template.\<close>

definition sharedTemplate :: dataflow where
  "sharedTemplate =
     \<lparr>df_graph = EntryGraph ''R'',
      df_subgraphs = Some [templateWith ''R'' [subgraphNode ''n1'' ''S'', subgraphNode ''n2'' ''S''],
                           emptyTemplate ''S'']\<rparr>"

text \<open>A multi-graph document without the \<open>subgraphs\<close> list.\<close>

definition noSubgraphs :: dataflow where
  "noSubgraphs = \<lparr>df_graph = EntryGraph ''A'', df_subgraphs = None\<rparr>"

text \<open>
  An environment whose graph model serializes the current graph as a root with one
  node that owns the instantiated subgraph \<open>S\<close>.
\<close>

definition nestedGraph :: graph_state where
  "nestedGraph =
     GraphState ''root'' None
       [NodeState ''n1'' ''subgraph'' (Some ''n1'') None [] (Some ''S'')
          (Some (GraphState ''S'' None [] [] (Some []) (Some []) None None))]
       [] (Some []) (Some []) None None"

definition nestedEnv :: env where
  "nestedEnv = headless\<lparr>graph_save := (\<lambda>h g. nestedGraph)\<rparr>"

definition nestedDocument :: dataflow where
  "nestedDocument =
     \<lparr>df_graph = EntryGraph ''g0'',
      df_subgraphs = Some
        [GraphState ''S'' None [] [] (Some []) (Some []) None None,
         GraphState ''root'' None
           [NodeState ''n1'' ''subgraph'' (Some ''n1'') None [] (Some ''S'') None]
           [] None None None None]\<rparr>"

text \<open>
  An editor two levels deep: node \<open>n1\<close> of the root owns graph \<open>S\<close>, node \<open>n2\<close>
  of \<open>S\<close> owns graph \<open>T\<close>, and \<open>T\<close> is the current graph.
\<close>

definition nestedHeap :: heap where
  "nestedHeap =
     \<lparr>nodes_h = (\<lambda>r. if r = 1 then blankNode\<lparr>node_id := ''n1'', node_subgraph := Some 1\<rparr>
                     else if r = 2 then blankNode\<lparr>node_id := ''n2'', node_subgraph := Some 2\<rparr>
                     else blankNode),
      graphs_h = (\<lambda>g. if g = 0 then blankGraph\<lparr>graph_id := ''root'', graph_nodes := [1]\<rparr>
                      else if g = 1 then blankGraph\<lparr>graph_id := ''S'', graph_nodes := [2]\<rparr>
                      else blankGraph\<lparr>graph_id := ''T''\<rparr>)\<rparr>"

definition insideEditor :: editor where
  "insideEditor =
     newEditor\<lparr>heap := nestedHeap, graphs := [0, 1, 2], priv_graph := 2,
               subgraphStack := [(''root'', 1), (''S'', 2)], priv_switchGraph := True\<rparr>"

text \<open>
  An environment whose \<open>applySidePositions\<close> refuses a boundary interface that is on
  neither side of the node; the two-level editor with such an interface on the boundary
  of \<open>T\<close>; the editor that leaving \<open>T\<close> produces from it; and that editor after
  the interface has been taken off the boundary.
\<close>

definition strictSides :: env where
  "strictSides =
     headless\<lparr>applySidePositions := (\<lambda>ins outs.
       if list_ex (\<lambda>entry. gi_side (snd entry) \<noteq> ''left'' \<and> gi_side (snd entry) \<noteq> ''right'')
            (ins @ outs)
       then Inl [''Invalid side of an interface'']
       else Inr (ins, outs))\<rparr>"

definition conflictEditor :: editor where
  "conflictEditor =
     upd_graph 2
       (\<lambda>g. g\<lparr>graph_inputs :=
                 [\<lparr>gi_id = ''t_in'', gi_name = ''in'', gi_side = ''top'',
                   gi_subgraphNodeId = Some ''marker''\<rparr>]\<rparr>)
       insideEditor"

definition strandedEditor :: editor where
  "strandedEditor = snd (backFromSubgraph strictSides conflictEditor)"

definition repairedEditor :: editor where
  "repairedEditor = upd_graph 2 (\<lambda>g. g\<lparr>graph_inputs := []\<rparr>) strandedEditor"

text \<open>
  An editor manager before any specification, two specifications, and the manager
  after the first specification has been applied and one subgraph template has been
  added.
\<close>

definition freshManager :: editor_manager where
  "freshManager =
     \<lparr>em_editor = newEditor, specificationLoaded = False, nodeInterfaceTypes = [],
      document_head = []\<rparr>"

definition firstSpecification :: dataflow_specification where
  "firstSpecification =
     \<lparr>spec_nodes = [\<lparr>sn_name = ''A'', sn_category = Some ''first'',
                      sn_inputs = [(''in'', ''Data'')], sn_outputs = [], sn_properties = []\<rparr>],
      spec_metadata = \<lparr>md_readonly = None, md_allowLoopbacks = None,
                       md_interfaces = Some [(''Data'', ''#ff0000'')]\<rparr>\<rparr>"

definition secondSpecification :: dataflow_specification where
  "secondSpecification =
     \<lparr>spec_nodes = [\<lparr>sn_name = ''B'', sn_category = None,
                      sn_inputs = [], sn_outputs = [(''out'', ''Image'')], sn_properties = []\<rparr>],
      spec_metadata = \<lparr>md_readonly = None, md_allowLoopbacks = None, md_interfaces = None\<rparr>\<rparr>"

definition withTemplate :: editor_manager where
  "withTemplate =
     (let em = updateEditorSpecification headless (Some firstSpecification) freshManager
      in em\<lparr>em_editor :=
              addGraphTemplate headless (emptyTemplate ''S'') ''Subgraphs'' ''subgraph''
                (em_editor em)\<rparr>)"

text \<open>
  A graph with the nodes \<open>A\<close>, \<open>N\<close> and \<open>B\<close>, connected \<open>A \<rightarrow> N \<rightarrow> B\<close>.  \<open>N\<close>
  owns the subgraph \<open>S\<close>, which holds one input marker wired straight to one output
  marker and no other node.
\<close>

definition port :: "ident \<Rightarrow> string \<Rightarrow> ident \<Rightarrow> ident option \<Rightarrow> node_interface" where
  "port i name nid sid =
     \<lparr>intf_id = i, intf_name = name, intf_nodeId = nid, intf_side = ''left'',
      intf_subgraphNodeId = sid, intf_connectionCount = 1\<rparr>"

definition placed :: "real \<Rightarrow> real \<Rightarrow> position option" where
  "placed x y = Some \<lparr>pos_x = Num x, pos_y = Num y\<rparr>"

definition passThroughHeap :: heap where
  "passThroughHeap =
     \<lparr>nodes_h = (\<lambda>r.
        if r = 10 then
          \<lparr>node_id = ''A'', node_type = ''source'', node_position = placed 0 0, node_inputs = [],
           node_outputs = [(''out'', port ''a_out'' ''out'' ''A'' None)], node_subgraph = None\<rparr>
        else if r = 11 then
          \<lparr>node_id = ''N'', node_type = ''__baklava_GraphNode-S'', node_position = placed 100 0,
           node_inputs = [(''in'', port ''n_in'' ''in'' ''N'' (Some ''s_in''))],
           node_outputs = [(''out'', port ''n_out'' ''out'' ''N'' (Some ''s_out''))],
           node_subgraph = Some 1\<rparr>
        else if r = 12 then
          \<lparr>node_id = ''B'', node_type = ''sink'', node_position = placed 200 0,
           node_inputs = [(''in'', port ''b_in'' ''in'' ''B'' None)], node_outputs = [],
           node_subgraph = None\<rparr>
        else if r = 20 then
          \<lparr>node_id = ''I'', node_type = ''__baklava_SubgraphInputNode'',
           node_position = placed 0 0, node_inputs = [],
           node_outputs = [(''placeholder'', port ''s_in'' ''Connection'' ''I'' None)],
           node_subgraph = None\<rparr>
        else if r = 21 then
          \<lparr>node_id = ''O'', node_type = ''__baklava_SubgraphOutputNode'',
           node_position = placed 50 0,
           node_inputs = [(''placeholder'', port ''s_out'' ''Connection'' ''O'' None)],
           node_outputs = [], node_subgraph = None\<rparr>
        else blankNode),
      graphs_h = (\<lambda>g.
        if g = 0 then
          blankGraph\<lparr>graph_id := ''root'', graph_nodes := [10, 11, 12],
            graph_connections :=
              [\<lparr>conn_from = port ''a_out'' ''out'' ''A'' None,
                conn_to = port ''n_in'' ''in'' ''N'' (Some ''s_in'')\<rparr>,
               \<lparr>conn_from = port ''n_out'' ''out'' ''N'' (Some ''s_out''),
                conn_to = port ''b_in'' ''in'' ''B'' None\<rparr>]\<rparr>
        else if g = 1 then
          blankGraph\<lparr>graph_id := ''S'', graph_nodes := [20, 21],
            graph_connections :=
              [\<lparr>conn_from = port ''s_in'' ''Connection'' ''I'' None,
                conn_to = port ''s_out'' ''Connection'' ''O'' None\<rparr>]\<rparr>
        else blankGraph)\<rparr>"

definition passThroughEditor :: editor where
  "passThroughEditor =
     newEditor\<lparr>heap := passThroughHeap, graphs := [0, 1],
               priv_graphTemplates := [emptyTemplate ''S'']\<rparr>"





section \<open>The recursion of load ends\<close>

lemma finite_templateIds [simp]: "finite (templateIds subgraphs)"
  by (simp add: templateIds_def split: option.splits)

lemma load_used_grows:
  shows "recurrentSubgraphLoad k subgraphs used node = Returned (errors, used', node') \<Longrightarrow>
         used \<subseteq> used'"
    and "loadEach k subgraphs used nodes = Returned (errors2, used2, nodes') \<Longrightarrow>
         used \<subseteq> used2"
proof (induction k subgraphs used node and k subgraphs used nodes
    arbitrary: errors used' node' and errors2 used2 nodes'
    rule: recurrentSubgraphLoad_loadEach.induct)
  case (1 subgraphs usedInstances node)
  then show ?case by simp
next
  case (2 k subgraphs usedInstances node)
  show ?case
  proof (cases "ns_subgraph node")
    case None
    with "2.prems" show ?thesis by simp
  next
    case (Some s)
    show ?thesis
    proof (cases subgraphs)
      case None
      with "2.prems" Some show ?thesis by simp
    next
      case (Some templates)
      let ?fit = "filter (\<lambda>template. gs_id template = s) templates"
      show ?thesis
      proof (cases "length ?fit \<noteq> 1 \<or> s \<in> usedInstances")
        case True
        with "2.prems" \<open>ns_subgraph node = Some s\<close> Some show ?thesis
          by (auto simp: Let_def split: if_splits)
      next
        case False
        then have one: "length ?fit = 1" and fresh: "s \<notin> usedInstances" by auto
        from "2.prems" \<open>ns_subgraph node = Some s\<close> Some one fresh obtain ns where
          inner: "loadEach k subgraphs (insert s usedInstances) (gs_nodes (hd ?fit)) =
                    Returned (errors, used', ns)"
          by (auto simp: Let_def split: result.splits)
        from "2.IH" [OF \<open>ns_subgraph node = Some s\<close> Some refl _ _ inner] one fresh
        have "insert s usedInstances \<subseteq> used'" by simp
        then show ?thesis by auto
      qed
    qed
  qed
next
  case (3 k subgraphs usedInstances)
  then show ?case by simp
next
  case (4 k subgraphs usedInstances n ns)
  from "4.prems" obtain e1 u1 n1 e2 ns2 where
    first: "recurrentSubgraphLoad k subgraphs usedInstances n = Returned (e1, u1, n1)"
    and rest: "loadEach k subgraphs u1 ns = Returned (e2, used2, ns2)"
    by (auto split: result.splits)
  from "4.IH"(1) [OF first] have "usedInstances \<subseteq> u1" .
  moreover from "4.IH"(2) [OF first refl refl rest] have "u1 \<subseteq> used2" .
  ultimately show ?case by simp
qed

lemma load_within_bound:
  shows "card (templateIds subgraphs - used) < k \<Longrightarrow>
         recurrentSubgraphLoad k subgraphs used node \<noteq> Threw rangeError"
    and "card (templateIds subgraphs - used) < k \<Longrightarrow>
         loadEach k subgraphs used nodes \<noteq> Threw rangeError"
proof (induction k subgraphs used node and k subgraphs used nodes
    rule: recurrentSubgraphLoad_loadEach.induct)
  case (1 subgraphs usedInstances node)
  then show ?case by simp
next
  case (2 k subgraphs usedInstances node)
  show ?case
  proof (cases "ns_subgraph node")
    case None
    then show ?thesis by simp
  next
    case (Some s)
    show ?thesis
    proof (cases subgraphs)
      case None
      with Some show ?thesis by (simp add: typeError_def rangeError_def)
    next
      case (Some templates)
      let ?fit = "filter (\<lambda>template. gs_id template = s) templates"
      show ?thesis
      proof (cases "length ?fit \<noteq> 1 \<or> s \<in> usedInstances")
        case True
        with \<open>ns_subgraph node = Some s\<close> Some show ?thesis
          by (auto simp: Let_def)
      next
        case False
        then have one: "length ?fit = 1" and fresh: "s \<notin> usedInstances" by auto
        from one have "?fit \<noteq> []" by auto
        then obtain t where "t \<in> set ?fit" by (cases ?fit) auto
        then have "s \<in> templateIds subgraphs" by (auto simp: templateIds_def Some)
        with fresh have mem: "s \<in> templateIds subgraphs - usedInstances" by simp
        have "templateIds subgraphs - insert s usedInstances =
              (templateIds subgraphs - usedInstances) - {s}" by auto
        then have "card (templateIds subgraphs - insert s usedInstances) =
              card (templateIds subgraphs - usedInstances) - 1"
          using mem by (simp add: card_Diff_singleton)
        moreover have "0 < card (templateIds subgraphs - usedInstances)"
          using mem by (simp add: card_gt_0_iff) blast
        ultimately have less: "card (templateIds subgraphs - insert s usedInstances) < k"
          using "2.prems" by linarith
        from "2.IH" [OF \<open>ns_subgraph node = Some s\<close> Some refl _ _ less] one fresh
        have "loadEach k subgraphs (insert s usedInstances) (gs_nodes (hd ?fit)) \<noteq>
              Threw rangeError" by simp
        with \<open>ns_subgraph node = Some s\<close> Some one fresh show ?thesis
          by (auto simp: Let_def split: result.splits)
      qed
    qed
  qed
next
  case (3 k subgraphs usedInstances)
  then show ?case by simp
next
  case (4 k subgraphs usedInstances n ns)
  from "4.IH"(1) [OF "4.prems"]
  have first: "recurrentSubgraphLoad k subgraphs usedInstances n \<noteq> Threw rangeError" .
  show ?case
  proof (cases "recurrentSubgraphLoad k subgraphs usedInstances n")
    case (Threw err)
    with first show ?thesis by simp
  next
    case (Returned r)
    obtain e1 u1 n1 where r: "r = (e1, u1, n1)" by (cases r)
    from Returned r have run: "recurrentSubgraphLoad k subgraphs usedInstances n =
        Returned (e1, u1, n1)" by simp
    from load_used_grows(1) [OF run] have "usedInstances \<subseteq> u1" .
    then have "templateIds subgraphs - u1 \<subseteq> templateIds subgraphs - usedInstances" by auto
    then have "card (templateIds subgraphs - u1) \<le> card (templateIds subgraphs - usedInstances)"
      by (intro card_mono) simp_all
    with "4.prems" have "card (templateIds subgraphs - u1) < k" by simp
    from "4.IH"(2) [OF run refl refl this]
    have "loadEach k subgraphs u1 ns \<noteq> Threw rangeError" .
    with run show ?thesis by (auto split: result.splits)
  qed
qed

text \<open>
  The bound that \<open>load\<close> passes is never reached: the recursion of
  \<open>recurrentSubgraphLoad\<close> ends by itself, and \<open>RangeError\<close> is not among its
  results.
\<close>

lemma loadEach_within_bound:
  "loadEach (nestingBound subgraphs) subgraphs {} nodes \<noteq> Threw rangeError"
proof -
  have "card (templateIds subgraphs) \<le> (case subgraphs of None \<Rightarrow> 0 | Some templates \<Rightarrow> length templates)"
    by (cases subgraphs) (simp_all add: templateIds_def card_length le_trans [OF card_image_le])
  then have "card (templateIds subgraphs - {}) < nestingBound subgraphs"
    by (simp add: nestingBound_def)
  then show ?thesis by (rule load_within_bound(2))
qed

section \<open>Root detection and exit paths of load\<close>



lemma heap_prepared [simp]: "heap (set_readonly b (unregisterGraphs ed)) = heap ed"
  by (simp add: set_readonly_def unregisterGraphs_def)

lemma priv_graph_prepared [simp]: "priv_graph (set_readonly b (unregisterGraphs ed)) = priv_graph ed"
  by (simp add: set_readonly_def unregisterGraphs_def)


lemmas sample_defs =
  newEditor_def headless_def headlessGraphLoad_def headlessGraphSave_def emptyTemplate_def
  subgraphNode_def templateWith_def blankGraph_def blankNode_def

lemmas load_defs =
  load_def loadGraphs_def findRootGraph_def usedSubgraphs_def unregisterGraphs_def readonly_def
  set_readonly_def current_graph_def nestingBound_def finishLoad_def enterEntryGraph_def
  applyView_def centerZoom_def upd_graph_def List.map_filter_def



text \<open>
  C3.  A multi-graph document without the \<open>subgraphs\<close> list makes \<open>load\<close> throw
  outside its \<open>try\<close> block: the promise is rejected, and \<open>loadDataflow\<close>, whose
  \<open>catch\<close> only guards the call, hands the rejected promise to its caller.
\<close>

theorem load_rejects_without_subgraphs:
  "fst (load env noSubgraphs ed) = Rejected (typeError ''forEach'') \<and>
   fst (loadDataflow env noSubgraphs em) = Rejected (typeError ''forEach'')"
  by (simp add: load_def loadDataflow_def try_catch_def noSubgraphs_def)

text \<open>
  C4.  An editor that is not read-only is left read-only by a load that ends on the
  missing-root return, on the return of the template errors inside the \<open>try\<close> block,
  or on the throw before it.
\<close>

theorem load_leaves_readonly_set:
  "readonly newEditor = False \<and>
   readonly (snd (load env mutualTemplates newEditor)) = True \<and>
   readonly (snd (load env sharedTemplate newEditor)) = True \<and>
   readonly (snd (load env noSubgraphs newEditor)) = True"
  by (simp add: mutualTemplates_def sharedTemplate_def noSubgraphs_def load_defs sample_defs
      eval_nat_numeral)

section \<open>Shape of the saved document\<close>

lemma gs_with_nodes [simp]:
  "gs_nodes (with_nodes ns g) = ns" "gs_id (with_nodes ns g) = gs_id g"
  "gs_inputs (with_nodes ns g) = gs_inputs g" "gs_outputs (with_nodes ns g) = gs_outputs g"
  by (cases g; simp)+

lemma gs_with_io [simp]:
  "gs_nodes (with_io a b g) = gs_nodes g" "gs_id (with_io a b g) = gs_id g"
  "gs_inputs (with_io a b g) = a" "gs_outputs (with_io a b g) = b"
  by (cases g; simp)+

lemma gs_with_view [simp]:
  "gs_nodes (with_view a b g) = gs_nodes g" "gs_id (with_view a b g) = gs_id g"
  by (cases g; simp)+

lemma save_strips:
  "recurrentSubgraphSave n = Returned (subs, n') \<Longrightarrow>
     ns_graphState n' = None \<and> ns_subgraph n' = ns_subgraph n \<and>
     list_all (\<lambda>t. list_all (\<lambda>m. ns_graphState m = None) (gs_nodes t)) subs \<and>
     (subs = [] \<longleftrightarrow> ns_subgraph n = None)"
  "saveEach ns = Returned (subs', ns') \<Longrightarrow>
     list_all (\<lambda>m. ns_graphState m = None) ns' \<and> map ns_subgraph ns' = map ns_subgraph ns \<and>
     list_all (\<lambda>t. list_all (\<lambda>m. ns_graphState m = None) (gs_nodes t)) subs' \<and>
     (subs' = [] \<longleftrightarrow> list_all (\<lambda>m. ns_subgraph m = None) ns)"
proof (induction n and ns arbitrary: subs n' and subs' ns' rule: recurrentSubgraphSave_saveEach.induct)
  case (1 i t n p ifs g)
  then show ?case by auto
next
  case (2 i t n p ifs s)
  then show ?case by simp
next
  case (3 i t n p ifs s gi gn nodes cs ins outs pan sc)
  from "3.prems" obtain subs0 ns0 where
    r: "saveEach nodes = Returned (subs0, ns0)"
    and e: "subs = GraphState gi gn ns0 cs ins outs pan sc # subs0"
      "n' = NodeState i t n p ifs (Some s) None"
    by (simp split: result.splits prod.splits)
  from "3.IH" [OF r] e show ?case by simp
next
  case 4
  then show ?case by auto
next
  case (5 node rest)
  from "5.prems" obtain s1 n1 s2 r2 where
    r1: "recurrentSubgraphSave node = Returned (s1, n1)"
    and r2: "saveEach rest = Returned (s2, r2)"
    and e: "subs' = s1 @ s2" "ns' = n1 # r2"
    by (simp split: result.splits prod.splits)
  from "5.IH"(1) [OF r1] "5.IH"(2) [OF r1 _ r2] e show ?case by simp
qed

lemma no_owner_map:
  "list_all (\<lambda>n. ns_subgraph n = None) ns = list_all (\<lambda>s. s = None) (map ns_subgraph ns)"
  by (simp add: list.pred_map comp_def)

lemma list_all_conj: "list_all (\<lambda>x. P x \<and> Q x) xs = (list_all P xs \<and> list_all Q xs)"
  by (induction xs) auto

lemma not_all_ex: "(\<not> list_all P xs) = list_ex (\<lambda>x. \<not> P x) xs"
  by (induction xs) auto

lemma saveDocument_shape:
  assumes "saveDocument cur g = Returned state"
  shows "if list_all (\<lambda>n. ns_subgraph n = None) (gs_nodes g)
         then df_subgraphs state = None \<and>
              (\<exists>root. df_graph state = SingleGraph root \<and>
                 gs_inputs root = None \<and> gs_outputs root = None \<and>
                 list_all (\<lambda>n. ns_subgraph n = None \<and> ns_graphState n = None) (gs_nodes root))
         else df_graph state = EntryGraph cur \<and>
              (\<exists>subgraphs root. subgraphs \<noteq> [] \<and>
                 df_subgraphs state = Some (subgraphs @ [root]) \<and>
                 gs_inputs root = None \<and> gs_outputs root = None \<and>
                 list_ex (\<lambda>n. ns_subgraph n \<noteq> None) (gs_nodes root) \<and>
                 list_all (\<lambda>t. list_all (\<lambda>n. ns_graphState n = None) (gs_nodes t))
                   (subgraphs @ [root]))"
proof -
  obtain subs ns where r: "saveEach (gs_nodes g) = Returned (subs, ns)"
    using assms by (auto simp: saveDocument_def split: result.splits)
  note s = save_strips(2) [OF r]
  have same: "list_all (\<lambda>n. ns_subgraph n = None) ns =
              list_all (\<lambda>n. ns_subgraph n = None) (gs_nodes g)"
    using s by (simp add: no_owner_map)
  show ?thesis
  proof (cases "list_all (\<lambda>n. ns_subgraph n = None) (gs_nodes g)")
    case True
    with s have "subs = []" by simp
    with assms r have "state = \<lparr>df_graph = SingleGraph (with_io None None (with_nodes ns g)),
                               df_subgraphs = None\<rparr>"
      by (simp add: saveDocument_def)
    with True s same show ?thesis by (simp add: list_all_conj)
  next
    case False
    with s have ne: "subs \<noteq> []" by simp
    with assms r have "state = \<lparr>df_graph = EntryGraph cur,
                               df_subgraphs = Some (subs @ [with_io None None (with_nodes ns g)])\<rparr>"
      by (simp add: saveDocument_def)
    moreover have "\<not> list_all (\<lambda>n. ns_subgraph n = None) ns"
      using False same by simp
    then have "list_ex (\<lambda>n. ns_subgraph n \<noteq> None) ns"
      by (simp only: not_all_ex)
    ultimately show ?thesis using False ne s by auto
  qed
qed

lemma save_Returned:
  assumes "save env ed = (Returned state, ed')"
  shows "\<exists>u. leaveAll env ed = (Returned u, snd (leaveAll env ed)) \<and>
           saveDocument (graph_id (current_graph ed)) (serializedGraph env (snd (leaveAll env ed)))
             = Returned state \<and>
           enterAll env (subgraphStack ed) (snd (leaveAll env ed)) = (Returned (), ed')"
  using assms by (auto simp: save_def Let_def split: prod.splits result.splits)

text \<open>
  C5.  Whenever \<open>save\<close> returns a document: if no node of the serialized graph names
  a subgraph, the document is the single object \<open>graph\<close> without a \<open>subgraphs\<close>
  field; otherwise its \<open>graph\<close> is \<open>{entryGraph: id}\<close> with the identifier of the
  graph that was current when \<open>save\<close> was called, and \<open>subgraphs\<close> is a non-empty
  list of collected graph states followed by the root.  In both forms the root has
  neither \<open>inputs\<close> nor \<open>outputs\<close>, and no node of any graph of the document carries
  a \<open>graphState\<close>.
\<close>

theorem save_document_shape:
  assumes "save env ed = (Returned state, ed')"
  shows "if list_all (\<lambda>n. ns_subgraph n = None)
              (gs_nodes (serializedGraph env (snd (leaveAll env ed))))
         then df_subgraphs state = None \<and>
              (\<exists>root. df_graph state = SingleGraph root \<and>
                 gs_inputs root = None \<and> gs_outputs root = None \<and>
                 list_all (\<lambda>n. ns_subgraph n = None \<and> ns_graphState n = None) (gs_nodes root))
         else df_graph state = EntryGraph (graph_id (current_graph ed)) \<and>
              (\<exists>subgraphs root. subgraphs \<noteq> [] \<and>
                 df_subgraphs state = Some (subgraphs @ [root]) \<and>
                 gs_inputs root = None \<and> gs_outputs root = None \<and>
                 list_ex (\<lambda>n. ns_subgraph n \<noteq> None) (gs_nodes root) \<and>
                 list_all (\<lambda>t. list_all (\<lambda>n. ns_graphState n = None) (gs_nodes t))
                   (subgraphs @ [root]))"
proof -
  from save_Returned [OF assms]
  have "saveDocument (graph_id (current_graph ed)) (serializedGraph env (snd (leaveAll env ed)))
          = Returned state" by blast
  then show ?thesis by (rule saveDocument_shape)
qed

lemmas save_defs =
  save_def leaveAll_def enterAll_def serializedGraph_def saveDocument_def current_graph_def

theorem save_document_shape_witness:
  "save nestedEnv newEditor = (Returned nestedDocument, newEditor) \<and>
   df_graph nestedDocument = EntryGraph (graph_id (current_graph newEditor)) \<and>
   (\<exists>subgraphs root. subgraphs \<noteq> [] \<and>
      df_subgraphs nestedDocument = Some (subgraphs @ [root]) \<and>
      gs_inputs root = None \<and> gs_outputs root = None \<and>
      list_ex (\<lambda>n. ns_subgraph n \<noteq> None) (gs_nodes root) \<and>
      list_all (\<lambda>t. list_all (\<lambda>n. ns_graphState n = None) (gs_nodes t)) (subgraphs @ [root]))"
proof -
  have run: "save nestedEnv newEditor = (Returned nestedDocument, newEditor)"
    by (simp add: save_defs nestedEnv_def nestedGraph_def nestedDocument_def sample_defs)
  have owner: "\<not> list_all (\<lambda>n. ns_subgraph n = None)
                  (gs_nodes (serializedGraph nestedEnv (snd (leaveAll nestedEnv newEditor))))"
    by (simp add: serializedGraph_def nestedEnv_def nestedGraph_def headless_def)
  from save_document_shape [OF run] owner run show ?thesis by simp
qed

section \<open>Navigation state across save\<close>

text \<open>
  Two stores have the same links when every graph has the same identifier and every node
  the same subgraph in both.
\<close>

lemma heap_upd_node [simp]:
  "graphs_h (heap (upd_node r f ed)) = graphs_h (heap ed)"
  "nodes_h (heap (upd_node r f ed)) = (nodes_h (heap ed))(r := f (nodes_h (heap ed) r))"
  "subgraphStack (upd_node r f ed) = subgraphStack ed"
  "priv_graph (upd_node r f ed) = priv_graph ed"
  "graphs (upd_node r f ed) = graphs ed"
  "priv_switchGraph (upd_node r f ed) = priv_switchGraph ed"
  by (simp_all add: upd_node_def)

lemma heap_upd_graph [simp]:
  "nodes_h (heap (upd_graph g f ed)) = nodes_h (heap ed)"
  "graphs_h (heap (upd_graph g f ed)) = (graphs_h (heap ed))(g := f (graphs_h (heap ed) g))"
  "subgraphStack (upd_graph g f ed) = subgraphStack ed"
  "priv_graph (upd_graph g f ed) = priv_graph ed"
  "graphs (upd_graph g f ed) = graphs ed"
  "priv_switchGraph (upd_graph g f ed) = priv_switchGraph ed"
  by (simp_all add: upd_graph_def)

lemma same_links_refl [simp]: "same_links h h"
  by (simp add: same_links_def)

lemma same_links_trans: "same_links h1 h2 \<Longrightarrow> same_links h2 h3 \<Longrightarrow> same_links h1 h3"
  by (simp add: same_links_def)

lemma same_links_upd_node:
  assumes "\<And>n. node_subgraph (f n) = node_subgraph n"
  shows "same_links (heap ed) (heap (upd_node r f ed))"
  using assms by (simp add: same_links_def)

lemma same_links_upd_graph:
  assumes "\<And>g. graph_id (f g) = graph_id g"
  shows "same_links (heap ed) (heap (upd_graph g f ed))"
  using assms by (simp add: same_links_def)

lemma fold_upd_node_fields [simp]:
  "subgraphStack (fold (\<lambda>r. upd_node r (f r)) rs ed) = subgraphStack ed"
  "priv_graph (fold (\<lambda>r. upd_node r (f r)) rs ed) = priv_graph ed"
  "graphs (fold (\<lambda>r. upd_node r (f r)) rs ed) = graphs ed"
  by (induction rs arbitrary: ed) simp_all

lemma fold_upd_node_links:
  assumes "\<And>r n. node_subgraph (f r n) = node_subgraph n"
  shows "same_links (heap ed) (heap (fold (\<lambda>r. upd_node r (f r)) rs ed))"
proof (induction rs arbitrary: ed)
  case Nil
  show ?case by simp
next
  case (Cons r rs)
  have "same_links (heap ed) (heap (upd_node r (f r) ed))"
    by (rule same_links_upd_node) (rule assms)
  with Cons [of "upd_node r (f r) ed"] show ?case
    by (auto intro: same_links_trans)
qed

lemma restorePosition_fields [simp]:
  "subgraphStack (restorePosition r ed) = subgraphStack ed"
  "priv_graph (restorePosition r ed) = priv_graph ed"
  "graphs (restorePosition r ed) = graphs ed"
  "priv_switchGraph (restorePosition r ed) = priv_switchGraph ed"
  by (simp_all add: restorePosition_def Let_def split: option.splits)

lemma restorePosition_links: "same_links (heap ed) (heap (restorePosition r ed))"
  by (simp add: restorePosition_def Let_def same_links_def split: option.splits)

lemma fold_restorePosition_fields [simp]:
  "subgraphStack (fold restorePosition rs ed) = subgraphStack ed"
  "priv_graph (fold restorePosition rs ed) = priv_graph ed"
  "graphs (fold restorePosition rs ed) = graphs ed"
  by (induction rs arbitrary: ed) simp_all

lemma fold_restorePosition_links: "same_links (heap ed) (heap (fold restorePosition rs ed))"
proof (induction rs arbitrary: ed)
  case Nil
  show ?case by simp
next
  case (Cons r rs)
  from restorePosition_links [of ed r] Cons [of "restorePosition r ed"] show ?case
    by (auto intro: same_links_trans)
qed

lemma switchToSubgraph_Returned:
  assumes "switchToSubgraph env n ed = (Returned u, ed')"
  shows "subgraphStack ed' = subgraphStack ed @ [(graph_id (current_graph ed), n)]"
    and "node_subgraph (nodes_h (heap ed) n) = Some (priv_graph ed')"
    and "same_links (heap ed) (heap ed')"
proof -
  let ?ed = "ed\<lparr>subgraphStack := subgraphStack ed @ [(graph_id (current_graph ed), n)],
                priv_switchGraph := True\<rparr>"
  from assms obtain sub where sub: "node_subgraph (nodes_h (heap ed) n) = Some sub"
    by (auto simp: switchToSubgraph_def switchGraph_def Let_def split: option.splits)
  let ?members = "graph_nodes (graphs_h (heap ed) sub)"
  let ?ed1 = "fold (\<lambda>r. upd_node r (\<lambda>m.
                 m\<lparr>node_inputs := fst (propagateInterfaces env (nodes_h (heap ed) n) m),
                   node_outputs := snd (propagateInterfaces env (nodes_h (heap ed) n) m)\<rparr>))
               ?members ?ed"
  let ?ed2 = "fold restorePosition ?members ?ed1"
  from assms sub have ed': "ed' = (?ed2\<lparr>priv_graph := sub\<rparr>)
      \<lparr>graphName := graph_name (current_graph (?ed2\<lparr>priv_graph := sub\<rparr>))\<rparr>"
    by (simp add: switchToSubgraph_def switchGraph_def Let_def)
  show "subgraphStack ed' = subgraphStack ed @ [(graph_id (current_graph ed), n)]"
    by (simp add: ed')
  show "node_subgraph (nodes_h (heap ed) n) = Some (priv_graph ed')"
    by (simp add: ed' sub)
  have "same_links (heap ?ed) (heap ?ed1)"
    by (rule fold_upd_node_links) simp
  moreover have "same_links (heap ?ed1) (heap ?ed2)"
    by (rule fold_restorePosition_links)
  ultimately have "same_links (heap ?ed) (heap ?ed2)"
    by (rule same_links_trans)
  then show "same_links (heap ed) (heap ed')"
    by (simp add: ed')
qed


lemma backFromSubgraph_Returned:
  assumes "backFromSubgraph env ed = (Returned u, ed')"
  shows "subgraphStack ed \<noteq> []"
    and "subgraphStack ed' = butlast (subgraphStack ed)"
    and "graph_id (current_graph ed') = fst (last (subgraphStack ed))"
    and "same_links (heap ed) (heap ed')"
proof -
  from assms obtain i n rest where top: "rev (subgraphStack ed) = (i, n) # rest"
    by (auto simp: backFromSubgraph_def split: list.splits)
  then have ne: "subgraphStack ed \<noteq> []" by auto
  from top have "last (subgraphStack ed) = hd (rev (subgraphStack ed))"
    using ne by (simp add: hd_rev)
  with top have last: "last (subgraphStack ed) = (i, n)" by simp
  let ?ed1 = "ed\<lparr>subgraphStack := butlast (subgraphStack ed)\<rparr>"
  let ?upd = "updateInterfaces env (current_graph ?ed1)
                (map (nodes_h (heap ?ed1)) (graph_nodes (current_graph ?ed1)))"
  let ?ed2 = "upd_graph (priv_graph ?ed1)
                (\<lambda>g. g\<lparr>graph_inputs := fst ?upd, graph_outputs := snd ?upd\<rparr>) ?ed1"
  from assms top obtain inputs outputs where
    side: "applySidePositions env (boundaryMap (graph_inputs (current_graph ?ed2)))
             (boundaryMap (graph_outputs (current_graph ?ed2))) = Inr (inputs, outputs)"
    by (auto simp: backFromSubgraph_def Let_def split: sum.splits)
  let ?ed3 = "upd_node n
                (\<lambda>m. m\<lparr>node_inputs := reconcile (node_id m) inputs (node_inputs m),
                       node_outputs := reconcile (node_id m) outputs (node_outputs m)\<rparr>) ?ed2"
  from assms top side obtain g gs where
    found: "filter (\<lambda>graph. graph_id (graphs_h (heap ?ed1) graph) = i) (graphs ?ed1) = g # gs"
    and ed': "ed' = ?ed3\<lparr>priv_graph := g, graphName := graph_name (graphs_h (heap ?ed3) g)\<rparr>"
    by (auto simp: backFromSubgraph_def Let_def split: list.splits if_splits)
  from found
  have "g \<in> set (filter (\<lambda>graph. graph_id (graphs_h (heap ?ed1) graph) = i) (graphs ?ed1))"
    by (metis list.set_intros(1))
  then have gid: "graph_id (graphs_h (heap ed) g) = i" by simp
  have l12: "same_links (heap ?ed1) (heap ?ed2)"
    by (rule same_links_upd_graph) simp
  have l23: "same_links (heap ?ed2) (heap ?ed3)"
    by (rule same_links_upd_node) simp
  have links: "same_links (heap ed) (heap ?ed3)"
    using same_links_trans [OF l12 l23] by simp
  show "subgraphStack ed \<noteq> []" by (rule ne)
  show "subgraphStack ed' = butlast (subgraphStack ed)" by (simp add: ed')
  show "same_links (heap ed) (heap ed')" using links by (simp add: ed')
  have "graph_id (graphs_h (heap ?ed3) g) = graph_id (graphs_h (heap ed) g)"
    using links unfolding same_links_def by blast
  then show "graph_id (current_graph ed') = fst (last (subgraphStack ed))"
    by (simp add: ed' current_graph_def gid last)
qed

lemma leaveEach_Returned:
  assumes "forEach (\<lambda>_. backFromSubgraph env) xs ed = (Returned u, ed')"
  shows "length xs \<le> length (subgraphStack ed) \<and>
         subgraphStack ed' = take (length (subgraphStack ed) - length xs) (subgraphStack ed) \<and>
         same_links (heap ed) (heap ed') \<and>
         (if xs = [] then ed' = ed
          else graph_id (current_graph ed') =
                 fst (subgraphStack ed ! (length (subgraphStack ed) - length xs)))"
  using assms
proof (induction xs arbitrary: ed u)
  case Nil
  then show ?case by simp
next
  case (Cons x xs)
  from Cons.prems obtain v ed1 where
    b: "backFromSubgraph env ed = (Returned v, ed1)"
    and r: "forEach (\<lambda>_. backFromSubgraph env) xs ed1 = (Returned u, ed')"
    by (auto split: prod.splits result.splits)
  note B = backFromSubgraph_Returned [OF b]
  note IH = Cons.IH [OF r]
  let ?s = "subgraphStack ed"
  from B(1) have pos: "0 < length ?s" by simp
  from IH have a: "length xs \<le> length (subgraphStack ed1)" by blast
  have b: "length (subgraphStack ed1) = length ?s - 1" by (simp add: B(2))
  have c: "length ?s \<noteq> 0" using B(1) by simp
  from a b c have len: "Suc (length xs) \<le> length ?s" by linarith
  have st: "subgraphStack ed' = take (length ?s - Suc (length xs)) ?s"
  proof -
    from IH B(2) have "subgraphStack ed' = take (length ?s - 1 - length xs) (butlast ?s)" by simp
    also have "\<dots> = take (length ?s - Suc (length xs)) ?s"
      by (simp add: butlast_conv_take min_def)
    finally show ?thesis .
  qed
  have links: "same_links (heap ed) (heap ed')"
    using B(4) IH by (blast intro: same_links_trans)
  have gid: "graph_id (current_graph ed') = fst (?s ! (length ?s - Suc (length xs)))"
  proof (cases "xs = []")
    case True
    with IH have "ed' = ed1" by simp
    with B(3) True B(1) show ?thesis by (simp add: last_conv_nth)
  next
    case False
    with IH have "graph_id (current_graph ed') =
        fst (subgraphStack ed1 ! (length (subgraphStack ed1) - length xs))" by simp
    also have "\<dots> = fst (butlast ?s ! (length ?s - Suc (length xs)))"
      by (simp add: B(2))
    also have "\<dots> = fst (?s ! (length ?s - Suc (length xs)))"
    proof -
      have "length xs \<noteq> 0" using False by simp
      with len have "length ?s - Suc (length xs) < length ?s - 1" by linarith
      then have "butlast ?s ! (length ?s - Suc (length xs)) = ?s ! (length ?s - Suc (length xs))"
        by (intro nth_butlast) simp
      then show ?thesis by simp
    qed
    finally show ?thesis .
  qed
  from len st links gid show ?case by simp
qed

lemma nav_chain_same_links:
  "same_links h h' \<Longrightarrow> nav_chain h' frames cur = nav_chain h frames cur"
  by (induction h frames cur rule: nav_chain.induct)
     (auto simp: same_links_def split: option.splits)

lemma enterAll_Returned:
  assumes "enterAll env frames ed = (Returned u, ed')"
    and "nav_chain (heap ed) frames cur"
    and "frames \<noteq> []"
    and "graph_id (current_graph ed) = fst (hd frames)"
  shows "subgraphStack ed' = subgraphStack ed @ frames \<and> priv_graph ed' = cur"
  using assms
proof (induction frames arbitrary: ed u)
  case Nil
  then show ?case by simp
next
  case (Cons f rest)
  obtain i n where f: "f = (i, n)" by (cases f)
  from Cons.prems(1) f obtain v ed1 where
    s: "switchToSubgraph env n ed = (Returned v, ed1)"
    and r: "enterAll env rest ed1 = (Returned u, ed')"
    by (auto simp: enterAll_def split: prod.splits result.splits)
  note S = switchToSubgraph_Returned [OF s]
  from Cons.prems(4) f have i: "graph_id (current_graph ed) = i" by simp
  show ?case
  proof (cases rest)
    case Nil
    with r have "ed' = ed1" by (simp add: enterAll_def)
    moreover from Cons.prems(2) f Nil have "node_subgraph (nodes_h (heap ed) n) = Some cur"
      by simp
    ultimately show ?thesis using S i f Nil by simp
  next
    case (Cons f' rest')
    obtain j m where f': "f' = (j, m)" by (cases f')
    from Cons.prems(2) f Cons f' obtain sub where
      sub: "node_subgraph (nodes_h (heap ed) n) = Some sub"
      and j: "graph_id (graphs_h (heap ed) sub) = j"
      and c: "nav_chain (heap ed) rest cur"
      by (auto split: option.splits)
    from S(2) sub have cur1: "priv_graph ed1 = sub" by simp
    have "graph_id (graphs_h (heap ed1) sub) = graph_id (graphs_h (heap ed) sub)"
      using S(3) unfolding same_links_def by blast
    with j cur1 Cons f' have g1: "graph_id (current_graph ed1) = fst (hd rest)"
      by (simp add: current_graph_def)
    have c1: "nav_chain (heap ed1) rest cur"
      using c nav_chain_same_links [OF S(3)] by simp
    have "rest \<noteq> []" using Cons by simp
    from Cons.IH [OF r c1 this g1] S(1) i f show ?thesis by simp
  qed
qed

text \<open>
  The stacks that entering subgraphs builds: the empty stack of a new editor is one, and
  a \<open>switchToSubgraph\<close> that returns extends one to another.
\<close>

lemma nav_chain_snoc:
  assumes "nav_chain h frames cur" and "node_subgraph (nodes_h h n) = Some s"
  shows "nav_chain h (frames @ [(graph_id (graphs_h h cur), n)]) s"
  using assms
  by (induction h frames cur rule: nav_chain.induct) (auto split: option.splits)

lemma newEditor_nav_chain:
  "nav_chain (heap newEditor) (subgraphStack newEditor) (priv_graph newEditor)"
  by (simp add: newEditor_def)

lemma switchToSubgraph_nav_chain:
  assumes "switchToSubgraph env n ed = (Returned u, ed')"
    and "nav_chain (heap ed) (subgraphStack ed) (priv_graph ed)"
  shows "nav_chain (heap ed') (subgraphStack ed') (priv_graph ed')"
proof -
  note S = switchToSubgraph_Returned [OF assms(1)]
  from nav_chain_snoc [OF assms(2) S(2)]
  have "nav_chain (heap ed) (subgraphStack ed') (priv_graph ed')"
    by (simp add: S(1) current_graph_def)
  with nav_chain_same_links [OF S(3)] show ?thesis by simp
qed

text \<open>
  C6 (amended).  When the navigation stack is one that entering subgraphs builds (every
  frame holds the identifier of the subgraph of the node of the frame below it, and the
  current graph is the subgraph of the node of the top frame) and \<open>save\<close> returns,
  the current graph and the navigation stack after the call are those before it.
\<close>

theorem save_preserves_navigation:
  assumes "nav_chain (heap ed) (subgraphStack ed) (priv_graph ed)"
    and "save env ed = (Returned state, ed')"
  shows "priv_graph ed' = priv_graph ed \<and> subgraphStack ed' = subgraphStack ed"
proof -
  from save_Returned [OF assms(2)] obtain u where
    l: "leaveAll env ed = (Returned u, snd (leaveAll env ed))"
    and e: "enterAll env (subgraphStack ed) (snd (leaveAll env ed)) = (Returned (), ed')"
    by blast
  let ?ed1 = "snd (leaveAll env ed)"
  from l have l': "forEach (\<lambda>_. backFromSubgraph env) (subgraphStack ed) ed = (Returned u, ?ed1)"
    by (simp add: leaveAll_def)
  note L = leaveEach_Returned [OF l']
  show ?thesis
  proof (cases "subgraphStack ed = []")
    case True
    with L have "?ed1 = ed" by simp
    with e True show ?thesis by (simp add: enterAll_def)
  next
    case False
    with L have st: "subgraphStack ?ed1 = []"
      and links: "same_links (heap ed) (heap ?ed1)"
      and gid: "graph_id (current_graph ?ed1) = fst (hd (subgraphStack ed))"
      by (simp_all add: hd_conv_nth)
    have c: "nav_chain (heap ?ed1) (subgraphStack ed) (priv_graph ed)"
      using assms(1) nav_chain_same_links [OF links] by simp
    from enterAll_Returned [OF e c False gid] st show ?thesis by simp
  qed
qed

lemmas nav_defs =
  backFromSubgraph_def switchToSubgraph_def switchGraph_def restorePosition_def upd_node_def
  upd_graph_def boundaryMap_def fromEntries_def reconcile_def removeStale_def

theorem save_preserves_navigation_witness:
  "nav_chain (heap insideEditor) (subgraphStack insideEditor) (priv_graph insideEditor) \<and>
   fst (save headless insideEditor) =
     Returned \<lparr>df_graph = SingleGraph (GraphState ''root'' None [] [] None None None None),
               df_subgraphs = None\<rparr> \<and>
   priv_graph (snd (save headless insideEditor)) = 2 \<and>
   subgraphStack (snd (save headless insideEditor)) = [(''root'', 1), (''S'', 2)]"
proof -
  have chain: "nav_chain (heap insideEditor) (subgraphStack insideEditor) (priv_graph insideEditor)"
    by (simp add: insideEditor_def nestedHeap_def sample_defs)
  have run: "fst (save headless insideEditor) =
     Returned \<lparr>df_graph = SingleGraph (GraphState ''root'' None [] [] None None None None),
               df_subgraphs = None\<rparr>"
    by (simp add: save_defs nav_defs insideEditor_def nestedHeap_def sample_defs Let_def)
  then have "save headless insideEditor =
     (Returned \<lparr>df_graph = SingleGraph (GraphState ''root'' None [] [] None None None None),
                df_subgraphs = None\<rparr>, snd (save headless insideEditor))"
    by (metis prod.collapse)
  from save_preserves_navigation [OF chain this] chain run show ?thesis
    by (simp add: insideEditor_def)
qed

text \<open>
  C6 as stated fails: not every navigation stack is restored.  Leaving \<open>T\<close> with an
  interface that \<open>applySidePositions\<close> refuses throws after the frame has been popped
  and before the current graph is switched, so the stack names one level while the
  current graph is still \<open>T\<close>, two levels deep.  Once the interface is taken off the
  boundary, \<open>save\<close> returns, the stack is the same, and the current graph is no
  longer \<open>T\<close> but \<open>S\<close>.
\<close>

theorem save_moves_active_graph:
  "nav_chain (heap conflictEditor) (subgraphStack conflictEditor) (priv_graph conflictEditor) \<and>
   fst (backFromSubgraph strictSides conflictEditor) =
     Threw (internalError [''Invalid side of an interface'']) \<and>
   subgraphStack strandedEditor = [(''root'', 1)] \<and>
   priv_graph strandedEditor = 2 \<and>
   subgraphStack repairedEditor = [(''root'', 1)] \<and>
   priv_graph repairedEditor = 2 \<and>
   fst (save strictSides repairedEditor) =
     Returned \<lparr>df_graph = SingleGraph (GraphState ''root'' None [] [] None None None None),
               df_subgraphs = None\<rparr> \<and>
   subgraphStack (snd (save strictSides repairedEditor)) = [(''root'', 1)] \<and>
   priv_graph (snd (save strictSides repairedEditor)) = 1"
proof -
  have stranded: "backFromSubgraph strictSides conflictEditor =
      (Threw (internalError [''Invalid side of an interface'']),
       conflictEditor\<lparr>subgraphStack := [(''root'', 1)]\<rparr>)"
    by (simp add: backFromSubgraph_def strictSides_def conflictEditor_def insideEditor_def
        nestedHeap_def sample_defs upd_graph_def current_graph_def boundaryMap_def
        fromEntries_def set_property_def boundaryKey_def interpolate_def Let_def)
  then have s: "strandedEditor = conflictEditor\<lparr>subgraphStack := [(''root'', 1)]\<rparr>"
    by (simp add: strandedEditor_def)
  have chain: "nav_chain (heap conflictEditor) (subgraphStack conflictEditor)
      (priv_graph conflictEditor)"
    by (simp add: conflictEditor_def insideEditor_def nestedHeap_def sample_defs upd_graph_def)
  have run: "save strictSides repairedEditor =
      (Returned \<lparr>df_graph = SingleGraph (GraphState ''root'' None [] [] None None None None),
                 df_subgraphs = None\<rparr>,
       snd (save strictSides repairedEditor))
      \<and> subgraphStack (snd (save strictSides repairedEditor)) = [(''root'', 1)]
      \<and> priv_graph (snd (save strictSides repairedEditor)) = 1"
    by (simp add: repairedEditor_def s save_defs nav_defs strictSides_def conflictEditor_def
        insideEditor_def nestedHeap_def sample_defs Let_def)
  have thrown: "fst (backFromSubgraph strictSides conflictEditor) =
      Threw (internalError [''Invalid side of an interface''])"
    by (simp add: stranded)
  have s1: "subgraphStack strandedEditor = [(''root'', 1)]" by (simp add: s)
  have s2: "priv_graph strandedEditor = 2"
    by (simp add: s conflictEditor_def insideEditor_def)
  have r1: "subgraphStack repairedEditor = [(''root'', 1)]"
    by (simp add: repairedEditor_def s1)
  have r2: "priv_graph repairedEditor = 2"
    by (simp add: repairedEditor_def s2)
  from run have saved: "fst (save strictSides repairedEditor) =
      Returned \<lparr>df_graph = SingleGraph (GraphState ''root'' None [] [] None None None None),
                df_subgraphs = None\<rparr>"
    by (metis fst_conv)
  from run have e1: "subgraphStack (snd (save strictSides repairedEditor)) = [(''root'', 1)]"
    and e2: "priv_graph (snd (save strictSides repairedEditor)) = 1"
    by blast+
  from chain thrown s1 s2 r1 r2 saved e1 e2 show ?thesis by blast
qed

section \<open>Replacing the specification\<close>

lemma fst_overwrite:
  "fst ` (\<lambda>(k', v'). if k' = k then (k', v) else (k', v')) ` set obj = fst ` set obj"
  by (force simp: image_iff split: if_splits)

lemma fst_set_property: "fst ` set (set_property k v obj) = insert k (fst ` set obj)"
  by (auto simp: set_property_def fst_overwrite simp del: image_image)

lemma unregisterNodeType_fields [simp]:
  "priv_graphTemplates (unregisterNodeType k ed) = priv_graphTemplates ed"
  "heap (unregisterNodeType k ed) = heap ed"
  "priv_graph (unregisterNodeType k ed) = priv_graph ed"
  by (simp_all add: unregisterNodeType_def)

lemma unregisterNodeType_types:
  "priv_nodeTypes (unregisterNodeType k ed) = delete_property k (priv_nodeTypes ed)"
proof (cases "k \<in> set (map fst (priv_nodeTypes ed))")
  case True
  then show ?thesis by (simp add: unregisterNodeType_def)
next
  case False
  then have "filter (\<lambda>(k', _). k' \<noteq> k) (priv_nodeTypes ed) = priv_nodeTypes ed"
    by (intro filter_True) force
  with False show ?thesis by (simp add: unregisterNodeType_def delete_property_def)
qed

lemma fold_unregisterNodeType:
  "priv_nodeTypes (fold unregisterNodeType ks ed) =
     filter (\<lambda>(k, _). k \<notin> set ks) (priv_nodeTypes ed) \<and>
   priv_graphTemplates (fold unregisterNodeType ks ed) = priv_graphTemplates ed \<and>
   heap (fold unregisterNodeType ks ed) = heap ed \<and>
   priv_graph (fold unregisterNodeType ks ed) = priv_graph ed"
proof (induction ks arbitrary: ed)
  case Nil
  show ?case by simp
next
  case (Cons k ks)
  have "filter (\<lambda>(k', _). k' \<notin> set ks) (delete_property k (priv_nodeTypes ed)) =
        filter (\<lambda>(k', _). k' \<notin> set (k # ks)) (priv_nodeTypes ed)"
    by (auto simp: delete_property_def intro: filter_cong)
  with Cons [of "unregisterNodeType k ed"] show ?case
    by (simp add: unregisterNodeType_types)
qed

lemma unregister_all:
  "priv_nodeTypes (fold unregisterNodeType (map fst (priv_nodeTypes ed)) ed) = []"
proof -
  have "filter (\<lambda>(k, _). k \<notin> set (map fst (priv_nodeTypes ed))) (priv_nodeTypes ed) = []"
    by (force simp: filter_empty_conv)
  with fold_unregisterNodeType [of "map fst (priv_nodeTypes ed)" ed] show ?thesis by simp
qed


lemma fold_remove1_mset: "mset (fold remove1 ys xs) = mset xs - mset ys"
  by (induction ys arbitrary: xs) simp_all

lemma fold_remove1_rev: "fold remove1 (rev xs) xs = []"
proof -
  have "mset (fold remove1 (rev xs) xs) = {#}" by (simp add: fold_remove1_mset)
  then show ?thesis by simp
qed

lemma removeConnections_fold:
  "graph_connections (graphs_h (heap (fold (\<lambda>c. upd_graph g (removeConnection c)) cs ed)) g) =
     fold remove1 cs (graph_connections (graphs_h (heap ed) g)) \<and>
   graph_nodes (graphs_h (heap (fold (\<lambda>c. upd_graph g (removeConnection c)) cs ed)) g) =
     graph_nodes (graphs_h (heap ed) g) \<and>
   priv_graph (fold (\<lambda>c. upd_graph g (removeConnection c)) cs ed) = priv_graph ed \<and>
   priv_nodeTypes (fold (\<lambda>c. upd_graph g (removeConnection c)) cs ed) = priv_nodeTypes ed \<and>
   priv_graphTemplates (fold (\<lambda>c. upd_graph g (removeConnection c)) cs ed) =
     priv_graphTemplates ed"
proof (induction cs arbitrary: ed)
  case Nil
  show ?case by simp
next
  case (Cons c cs)
  from Cons [of "upd_graph g (removeConnection c) ed"] show ?case
    by (simp add: upd_graph_def removeConnection_def)
qed

lemma removeNodes_fold:
  assumes "graph_connections (graphs_h (heap ed) g) = []"
  shows
  "graph_nodes (graphs_h (heap (fold (\<lambda>r e. upd_graph g (removeNode (heap e) r) e) rs ed)) g) =
     fold remove1 rs (graph_nodes (graphs_h (heap ed) g)) \<and>
   graph_connections
     (graphs_h (heap (fold (\<lambda>r e. upd_graph g (removeNode (heap e) r) e) rs ed)) g) = [] \<and>
   priv_graph (fold (\<lambda>r e. upd_graph g (removeNode (heap e) r) e) rs ed) = priv_graph ed \<and>
   priv_nodeTypes (fold (\<lambda>r e. upd_graph g (removeNode (heap e) r) e) rs ed) =
     priv_nodeTypes ed \<and>
   priv_graphTemplates (fold (\<lambda>r e. upd_graph g (removeNode (heap e) r) e) rs ed) =
     priv_graphTemplates ed"
  using assms
proof (induction rs arbitrary: ed)
  case Nil
  then show ?case by simp
next
  case (Cons r rs)
  let ?e = "upd_graph g (removeNode (heap ed) r) ed"
  have n: "graph_nodes (graphs_h (heap ?e) g) = remove1 r (graph_nodes (graphs_h (heap ed) g))"
    by (simp add: upd_graph_def removeNode_def remove1_idem)
  have c: "graph_connections (graphs_h (heap ?e) g) = []"
    using Cons.prems by (simp add: upd_graph_def removeNode_def)
  have f: "priv_graph ?e = priv_graph ed" "priv_nodeTypes ?e = priv_nodeTypes ed"
    "priv_graphTemplates ?e = priv_graphTemplates ed"
    by (simp_all add: upd_graph_def)
  from Cons.IH [OF c] n f show ?case by simp
qed

lemma graph_cleared:
  "graph_nodes (current_graph (removeAllNodes (removeAllConnections ed))) = [] \<and>
   graph_connections (current_graph (removeAllNodes (removeAllConnections ed))) = [] \<and>
   priv_graph (removeAllNodes (removeAllConnections ed)) = priv_graph ed \<and>
   priv_nodeTypes (removeAllNodes (removeAllConnections ed)) = priv_nodeTypes ed \<and>
   priv_graphTemplates (removeAllNodes (removeAllConnections ed)) = priv_graphTemplates ed"
proof -
  let ?g = "priv_graph ed"
  let ?e = "removeAllConnections ed"
  note C = removeConnections_fold
    [of ?g "rev (graph_connections (current_graph ed))" ed]
  from C have c: "graph_connections (graphs_h (heap ?e) ?g) = []"
    by (simp add: removeAllConnections_def current_graph_def fold_remove1_rev)
  from C have g: "priv_graph ?e = ?g" by (simp add: removeAllConnections_def)
  note N = removeNodes_fold [OF c, of "rev (graph_nodes (graphs_h (heap ?e) ?g))"]
  from N g have "graph_nodes (current_graph (removeAllNodes ?e)) = []"
    by (simp add: removeAllNodes_def current_graph_def fold_remove1_rev)
  moreover from N g have "graph_connections (current_graph (removeAllNodes ?e)) = []"
    by (simp add: removeAllNodes_def current_graph_def)
  moreover from N g C have "priv_graph (removeAllNodes ?e) = ?g"
    "priv_nodeTypes (removeAllNodes ?e) = priv_nodeTypes ed"
    "priv_graphTemplates (removeAllNodes ?e) = priv_graphTemplates ed"
    by (simp_all add: removeAllNodes_def removeAllConnections_def current_graph_def)
  ultimately show ?thesis by simp
qed

lemma find_SomeP: "find P xs = Some y \<Longrightarrow> P y"
  by (induction xs) (auto split: if_splits)

lemma find_remove1_filter:
  "find P xs = Some y \<Longrightarrow> filter P (remove1 y xs) = tl (filter P xs)"
  by (induction xs) (auto split: if_splits dest: find_SomeP)

lemma find_None_filter: "find P xs = None \<Longrightarrow> filter P xs = []"
  by (induction xs) (auto split: if_splits)

lemma find_remove1_others:
  "find P xs = Some y \<Longrightarrow> filter (\<lambda>x. \<not> P x) (remove1 y xs) = filter (\<lambda>x. \<not> P x) xs"
  by (induction xs) (auto split: if_splits dest: find_SomeP)

lemma removeInterfacesStyle_head:
  assumes "length (filter (\<lambda>(i, _). i = interfacesStyleId) (document_head em)) \<le> 1"
  shows "filter (\<lambda>(i, _). i = interfacesStyleId) (document_head (removeInterfacesStyle em)) = []"
proof (cases "find (\<lambda>(i, _). i = interfacesStyleId) (document_head em)")
  case None
  then show ?thesis by (simp add: removeInterfacesStyle_def find_None_filter)
next
  case (Some y)
  from find_remove1_filter [OF Some] assms
  have "filter (\<lambda>(i, _). i = interfacesStyleId) (remove1 y (document_head em)) = []"
    by (cases "filter (\<lambda>(i, _). i = interfacesStyleId) (document_head em)") simp_all
  with Some show ?thesis by (simp add: removeInterfacesStyle_def)
qed

lemma removeInterfacesStyle_fields [simp]:
  "em_editor (removeInterfacesStyle em) = em_editor em"
  "nodeInterfaceTypes (removeInterfacesStyle em) = nodeInterfaceTypes em"
  by (simp_all add: removeInterfacesStyle_def split: option.splits)

lemma registerSpecNodes_fold:
  "fst ` set (priv_nodeTypes (fold (registerSpecNode env its) nodes ed)) =
     fst ` set (priv_nodeTypes ed) \<union> (\<lambda>n. nc_type (nodeFactory env n its)) ` set nodes \<and>
   priv_graphTemplates (fold (registerSpecNode env its) nodes ed) = priv_graphTemplates ed \<and>
   heap (fold (registerSpecNode env its) nodes ed) = heap ed \<and>
   priv_graph (fold (registerSpecNode env its) nodes ed) = priv_graph ed"
proof (induction nodes arbitrary: ed)
  case Nil
  show ?case by simp
next
  case (Cons n nodes)
  let ?e = "registerSpecNode env its n ed"
  have k: "fst ` set (priv_nodeTypes ?e) =
           insert (nc_type (nodeFactory env n its)) (fst ` set (priv_nodeTypes ed))"
    by (simp add: registerSpecNode_def registerNodeType_def fst_set_property)
  have f: "priv_graphTemplates ?e = priv_graphTemplates ed" "heap ?e = heap ed"
    "priv_graph ?e = priv_graph ed"
    by (simp_all add: registerSpecNode_def registerNodeType_def)
  from Cons [of ?e] have
    "fst ` set (priv_nodeTypes (fold (registerSpecNode env its) (n # nodes) ed)) =
       fst ` set (priv_nodeTypes ?e) \<union> (\<lambda>n. nc_type (nodeFactory env n its)) ` set nodes"
    by simp
  also have "\<dots> = fst ` set (priv_nodeTypes ed) \<union>
                    (\<lambda>n. nc_type (nodeFactory env n its)) ` set (n # nodes)"
    unfolding k by auto
  finally have keys: "fst ` set (priv_nodeTypes (fold (registerSpecNode env its) (n # nodes) ed)) =
    fst ` set (priv_nodeTypes ed) \<union> (\<lambda>n. nc_type (nodeFactory env n its)) ` set (n # nodes)" .
  from Cons [of ?e] f have
    "priv_graphTemplates (fold (registerSpecNode env its) (n # nodes) ed) = priv_graphTemplates ed"
    "heap (fold (registerSpecNode env its) (n # nodes) ed) = heap ed"
    "priv_graph (fold (registerSpecNode env its) (n # nodes) ed) = priv_graph ed"
    by simp_all
  with keys show ?case by blast
qed

lemma addTypes_keeps: "set types \<subseteq> set (addTypes new types)"
  unfolding addTypes_def
proof (induction new arbitrary: types)
  case Nil
  show ?case by simp
next
  case (Cons a new)
  from Cons [of types] Cons [of "types @ [a]"] show ?case by auto
qed


lemma cleanEditor_manager_result:
  assumes "length (filter (\<lambda>(i, _). i = interfacesStyleId) (document_head em)) \<le> 1"
  shows "priv_nodeTypes (em_editor (cleanEditor_manager em)) = []"
    and "graph_nodes (current_graph (em_editor (cleanEditor_manager em))) = []"
    and "graph_connections (current_graph (em_editor (cleanEditor_manager em))) = []"
    and "priv_graphTemplates (em_editor (cleanEditor_manager em)) =
           priv_graphTemplates (em_editor em)"
    and "filter (\<lambda>(i, _). i = interfacesStyleId) (document_head (cleanEditor_manager em)) = []"
    and "nodeInterfaceTypes (cleanEditor_manager em) = nodeInterfaceTypes em"
    and "specificationLoaded (cleanEditor_manager em) = specificationLoaded em"
proof -
  let ?ed1 = "removeAllNodes (removeAllConnections (em_editor em))"
  let ?ed2 = "fold unregisterNodeType (map fst (priv_nodeTypes ?ed1)) ?ed1"
  have c: "cleanEditor_manager em = removeInterfacesStyle (em\<lparr>em_editor := ?ed2\<rparr>)"
    by (simp add: cleanEditor_manager_def Let_def)
  from graph_cleared [of "em_editor em"] have
    g: "graph_nodes (current_graph ?ed1) = []" "graph_connections (current_graph ?ed1) = []"
      "priv_graphTemplates ?ed1 = priv_graphTemplates (em_editor em)"
    by blast+
  from fold_unregisterNodeType [of "map fst (priv_nodeTypes ?ed1)" ?ed1] have
    u: "priv_graphTemplates ?ed2 = priv_graphTemplates ?ed1" "heap ?ed2 = heap ?ed1"
      "priv_graph ?ed2 = priv_graph ?ed1"
    by blast+
  have cg: "current_graph ?ed2 = current_graph ?ed1"
    unfolding current_graph_def by (simp only: u)
  show "priv_nodeTypes (em_editor (cleanEditor_manager em)) = []"
    by (simp add: c unregister_all)
  show "graph_nodes (current_graph (em_editor (cleanEditor_manager em))) = []"
    and "graph_connections (current_graph (em_editor (cleanEditor_manager em))) = []"
    by (simp_all add: c cg g)
  show "priv_graphTemplates (em_editor (cleanEditor_manager em)) =
           priv_graphTemplates (em_editor em)"
    by (simp add: c u g)
  have "length (filter (\<lambda>(i, _). i = interfacesStyleId)
          (document_head (em\<lparr>em_editor := ?ed2\<rparr>))) \<le> 1"
    using assms by simp
  from removeInterfacesStyle_head [OF this]
  show "filter (\<lambda>(i, _). i = interfacesStyleId) (document_head (cleanEditor_manager em)) = []"
    by (simp add: c)
  show "nodeInterfaceTypes (cleanEditor_manager em) = nodeInterfaceTypes em"
    by (simp add: c)
  show "specificationLoaded (cleanEditor_manager em) = specificationLoaded em"
    by (simp add: c removeInterfacesStyle_def split: option.splits)
qed

text \<open>
  C9 (amended).  When a specification is active and the page holds at most one
  interfaces stylesheet, \<open>updateEditorSpecification\<close> leaves exactly the node types
  of the new specification registered, exactly the interfaces stylesheet of the new
  specification (none when its metadata has no \<open>interfaces\<close>), and a current graph
  without nodes and connections; the list of graph templates is what it was and every
  interface type registered before is still registered.  The result again has an
  active specification and at most one interfaces stylesheet, so the same holds for
  the next specification.
\<close>

theorem updateEditorSpecification_replaces:
  assumes "specificationLoaded em"
    and "length (filter (\<lambda>(i, _). i = interfacesStyleId) (document_head em)) \<le> 1"
  shows "fst ` set (priv_nodeTypes (em_editor (updateEditorSpecification env (Some spec) em))) =
           (\<lambda>n. nc_type (nodeFactory env n (readInterfaceTypes env (spec_nodes spec)))) `
             set (spec_nodes spec) \<and>
         filter (\<lambda>(i, _). i = interfacesStyleId)
           (document_head (updateEditorSpecification env (Some spec) em)) =
           (case md_interfaces (spec_metadata spec) of
              None \<Rightarrow> []
            | Some interfaces \<Rightarrow> [(interfacesStyleId, concat (map interfaceRule interfaces))]) \<and>
         graph_nodes (current_graph (em_editor (updateEditorSpecification env (Some spec) em))) = [] \<and>
         graph_connections
           (current_graph (em_editor (updateEditorSpecification env (Some spec) em))) = [] \<and>
         priv_graphTemplates (em_editor (updateEditorSpecification env (Some spec) em)) =
           priv_graphTemplates (em_editor em) \<and>
         set (nodeInterfaceTypes em) \<subseteq>
           set (nodeInterfaceTypes (updateEditorSpecification env (Some spec) em)) \<and>
         specificationLoaded (updateEditorSpecification env (Some spec) em) \<and>
         length (filter (\<lambda>(i, _). i = interfacesStyleId)
           (document_head (updateEditorSpecification env (Some spec) em))) \<le> 1"
proof -
  let ?em1 = "cleanEditor_manager em"
  let ?its = "readInterfaceTypes env (spec_nodes spec)"
  let ?em2 = "?em1\<lparr>nodeInterfaceTypes := addTypes ?its (nodeInterfaceTypes ?em1)\<rparr>"
  let ?em3 = "updateInterfacesStyle (spec_metadata spec) ?em2"
  let ?ed1 = "fold (registerSpecNode env ?its) (spec_nodes spec) (em_editor ?em3)"
  let ?ed3 = "(set_readonly (case md_readonly (spec_metadata spec) of
                               None \<Rightarrow> False | Some b \<Rightarrow> b) ?ed1)
                \<lparr>allowLoopbacks := (case md_allowLoopbacks (spec_metadata spec) of
                                       None \<Rightarrow> False | Some b \<Rightarrow> b)\<rparr>"
  let ?em' = "updateEditorSpecification env (Some spec) em"
  have r: "?em' = ?em3\<lparr>em_editor := ?ed3, specificationLoaded := True\<rparr>"
    using assms(1) by (simp add: updateEditorSpecification_def Let_def)
  note C = cleanEditor_manager_result [OF assms(2)]
  have ed3: "em_editor ?em3 = em_editor ?em1"
    by (simp add: updateInterfacesStyle_def split: option.splits)
  from registerSpecNodes_fold [of env ?its "spec_nodes spec" "em_editor ?em3"] have
    k: "fst ` set (priv_nodeTypes ?ed1) =
          fst ` set (priv_nodeTypes (em_editor ?em3)) \<union>
          (\<lambda>n. nc_type (nodeFactory env n ?its)) ` set (spec_nodes spec)"
    and f: "priv_graphTemplates ?ed1 = priv_graphTemplates (em_editor ?em3)"
      "heap ?ed1 = heap (em_editor ?em3)" "priv_graph ?ed1 = priv_graph (em_editor ?em3)"
    by blast+
  have e': "priv_nodeTypes (em_editor ?em') = priv_nodeTypes ?ed1"
    "priv_graphTemplates (em_editor ?em') = priv_graphTemplates ?ed1"
    "current_graph (em_editor ?em') = current_graph (em_editor ?em1)"
    unfolding current_graph_def by (simp_all add: r set_readonly_def ed3 f [unfolded ed3])
  have types: "fst ` set (priv_nodeTypes (em_editor ?em')) =
      (\<lambda>n. nc_type (nodeFactory env n ?its)) ` set (spec_nodes spec)"
    unfolding e' k by (simp add: ed3 C(1))
  have head: "document_head ?em' =
      (case md_interfaces (spec_metadata spec) of
         None \<Rightarrow> document_head ?em1
       | Some interfaces \<Rightarrow>
           document_head ?em1 @ [(interfacesStyleId, concat (map interfaceRule interfaces))])"
    by (simp add: r updateInterfacesStyle_def split: option.splits)
  have style: "filter (\<lambda>(i, _). i = interfacesStyleId) (document_head ?em') =
      (case md_interfaces (spec_metadata spec) of
         None \<Rightarrow> []
       | Some interfaces \<Rightarrow> [(interfacesStyleId, concat (map interfaceRule interfaces))])"
    using C(5) by (simp add: head split: option.splits)
  have graph: "graph_nodes (current_graph (em_editor ?em')) = []"
    "graph_connections (current_graph (em_editor ?em')) = []"
    unfolding e' by (rule C(2), rule C(3))
  have templates: "priv_graphTemplates (em_editor ?em') = priv_graphTemplates (em_editor em)"
    unfolding e' f by (simp add: ed3 C(4))
  have "nodeInterfaceTypes ?em' = addTypes ?its (nodeInterfaceTypes em)"
    using C(6) by (simp add: r updateInterfacesStyle_def split: option.splits)
  then have itypes: "set (nodeInterfaceTypes em) \<subseteq> set (nodeInterfaceTypes ?em')"
    by (simp add: addTypes_keeps)
  have loaded: "specificationLoaded ?em'" by (simp add: r)
  have "length (filter (\<lambda>(i, _). i = interfacesStyleId) (document_head ?em')) \<le> 1"
    by (simp add: style split: option.splits)
  with types style graph templates itypes loaded show ?thesis by blast
qed

lemmas manager_defs =
  withTemplate_def freshManager_def firstSpecification_def secondSpecification_def
  updateEditorSpecification_def updateInterfacesStyle_def addGraphTemplate_def
  registerSpecNode_def registerNodeType_def set_property_def addTypes_def set_readonly_def
  GRAPH_NODE_TYPE_PREFIX_def interfacesStyleId_def

theorem updateEditorSpecification_replaces_witness:
  "specificationLoaded withTemplate \<and>
   length (filter (\<lambda>(i, _). i = interfacesStyleId) (document_head withTemplate)) \<le> 1 \<and>
   fst ` set (priv_nodeTypes (em_editor
     (updateEditorSpecification headless (Some secondSpecification) withTemplate))) = {''B''} \<and>
   filter (\<lambda>(i, _). i = interfacesStyleId)
     (document_head (updateEditorSpecification headless (Some secondSpecification) withTemplate)) = [] \<and>
   priv_graphTemplates (em_editor
     (updateEditorSpecification headless (Some secondSpecification) withTemplate)) =
     priv_graphTemplates (em_editor withTemplate)"
proof -
  have loaded: "specificationLoaded withTemplate"
    by (simp add: manager_defs sample_defs Let_def)
  have one: "length (filter (\<lambda>(i, _). i = interfacesStyleId) (document_head withTemplate)) \<le> 1"
    by (simp add: manager_defs sample_defs Let_def)
  from updateEditorSpecification_replaces [OF loaded one, of headless secondSpecification]
    loaded one
  show ?thesis by (simp add: secondSpecification_def headless_def)
qed

text \<open>
  C9 as stated fails: a graph template added while the first specification was active
  is still in the list of graph templates after the second specification has been
  applied, and so is the interface type of the first specification.
\<close>

theorem template_survives_specification:
  "priv_graphTemplates (em_editor
     (updateEditorSpecification headless (Some secondSpecification) withTemplate)) =
     [emptyTemplate ''S''] \<and>
   nodeInterfaceTypes
     (updateEditorSpecification headless (Some secondSpecification) withTemplate) =
     [''Data'', ''Image'']"
proof -
  have loaded: "specificationLoaded withTemplate"
    by (simp add: manager_defs sample_defs Let_def)
  have one: "length (filter (\<lambda>(i, _). i = interfacesStyleId) (document_head withTemplate)) \<le> 1"
    by (simp add: manager_defs sample_defs Let_def)
  have t: "priv_graphTemplates (em_editor withTemplate) = [emptyTemplate ''S'']"
    by (simp add: manager_defs sample_defs Let_def)
  have i: "nodeInterfaceTypes withTemplate = [''Data'']"
    by (simp add: manager_defs sample_defs Let_def)
  have "nodeInterfaceTypes
     (updateEditorSpecification headless (Some secondSpecification) withTemplate) =
     addTypes (readInterfaceTypes headless (spec_nodes secondSpecification))
       (nodeInterfaceTypes (cleanEditor_manager withTemplate))"
    using loaded
    by (simp add: updateEditorSpecification_def Let_def updateInterfacesStyle_def
        split: option.splits)
  also have "\<dots> = [''Data'', ''Image'']"
    using cleanEditor_manager_result(6) [OF one] i
    by (simp add: secondSpecification_def headless_def addTypes_def)
  finally have types: "nodeInterfaceTypes
     (updateEditorSpecification headless (Some secondSpecification) withTemplate) =
     [''Data'', ''Image'']" .
  have "priv_graphTemplates (em_editor
     (updateEditorSpecification headless (Some secondSpecification) withTemplate)) =
     priv_graphTemplates (em_editor (cleanEditor_manager withTemplate))"
    using loaded registerSpecNodes_fold
      [of headless "readInterfaceTypes headless (spec_nodes secondSpecification)"
          "spec_nodes secondSpecification" "em_editor (cleanEditor_manager withTemplate)"]
    by (simp add: updateEditorSpecification_def Let_def updateInterfacesStyle_def set_readonly_def
        split: option.splits)
  with cleanEditor_manager_result(4) [OF one] t types show ?thesis by simp
qed

section \<open>Inlining\<close>

lemma templates_upd [simp]:
  "priv_graphTemplates (upd_graph g f ed) = priv_graphTemplates ed"
  "priv_graphTemplates (upd_node r h ed) = priv_graphTemplates ed"
  by (simp_all add: upd_graph_def upd_node_def)

lemma findInterface_absent:
  "nodeId \<notin> nodeIds ed \<Longrightarrow> findInterface ed nodeId intfId s = None"
proof -
  assume "nodeId \<notin> nodeIds ed"
  then have "find (\<lambda>r. node_id (nodes_h (heap ed) r) = nodeId) (graph_nodes (current_graph ed)) = None"
    by (auto simp: nodeIds_def find_None_iff)
  then show ?thesis by (simp add: findInterface_def)
qed

lemma find_Some_member: "find P xs = Some y \<Longrightarrow> y \<in> set xs \<and> P y"
  by (induction xs) (auto split: if_splits)

lemma findInterface_owned:
  assumes "findInterface ed nodeId intfId None = Some f"
  shows "ownedInterface ed f"
proof -
  from assms obtain r where
    r: "find (\<lambda>r. node_id (nodes_h (heap ed) r) = nodeId) (graph_nodes (current_graph ed)) = Some r"
    and f: "find (\<lambda>intf. intf_id intf = intfId) (nodeInterfaces (nodes_h (heap ed) r)) = Some f"
    by (auto simp: findInterface_def split: option.splits)
  from find_Some_member [OF r] find_Some_member [OF f] show ?thesis
    by (auto simp: ownedInterface_def list_ex_iff)
qed

text \<open>Two editors show the same nodes when the current graph and all node objects agree.\<close>

lemma findInterface_cong:
  assumes "nodes_h (heap ed') = nodes_h (heap ed)"
    and "graph_nodes (current_graph ed') = graph_nodes (current_graph ed)"
  shows "findInterface ed' = findInterface ed"
  by (intro ext) (unfold findInterface_def assms, rule refl)

lemma ownedInterface_cong:
  assumes "nodes_h (heap ed') = nodes_h (heap ed)"
    and "graph_nodes (current_graph ed') = graph_nodes (current_graph ed)"
  shows "ownedInterface ed' = ownedInterface ed"
  by (intro ext) (unfold ownedInterface_def assms, rule refl)

lemma reconnect_cases:
  "reconnect m c ed = ed \<or>
   (\<exists>f t. ownedInterface ed f \<and> ownedInterface ed t \<and>
      reconnect m c ed = upd_graph (priv_graph ed) (addConnection f t) ed)"
  by (auto simp: reconnect_def split: option.splits dest: findInterface_owned)

lemma reconnect_frame:
  "nodes_h (heap (reconnect m c ed)) = nodes_h (heap ed) \<and>
   graph_nodes (current_graph (reconnect m c ed)) = graph_nodes (current_graph ed) \<and>
   priv_graph (reconnect m c ed) = priv_graph ed \<and>
   priv_graphTemplates (reconnect m c ed) = priv_graphTemplates ed"
  using reconnect_cases [of m c ed]
  by (auto simp: current_graph_def upd_graph_def addConnection_def)

lemma reconnect_connections:
  "\<exists>created. graph_connections (current_graph (reconnect m c ed)) =
       graph_connections (current_graph ed) @ created \<and>
     list_all (\<lambda>c. ownedInterface ed (conn_from c) \<and> ownedInterface ed (conn_to c)) created"
proof -
  from reconnect_cases [of m c ed] show ?thesis
  proof
    assume "reconnect m c ed = ed"
    then show ?thesis by simp
  next
    assume "\<exists>f t. ownedInterface ed f \<and> ownedInterface ed t \<and>
      reconnect m c ed = upd_graph (priv_graph ed) (addConnection f t) ed"
    then obtain f t where o: "ownedInterface ed f" "ownedInterface ed t"
      and r: "reconnect m c ed = upd_graph (priv_graph ed) (addConnection f t) ed" by blast
    have "graph_connections (current_graph (reconnect m c ed)) =
            graph_connections (current_graph ed) @ [\<lparr>conn_from = f, conn_to = t\<rparr>]"
      by (simp add: r current_graph_def upd_graph_def addConnection_def)
    with o show ?thesis by auto
  qed
qed

lemma fold_reconnect:
  "nodes_h (heap (fold (reconnect m) cs ed)) = nodes_h (heap ed) \<and>
   graph_nodes (current_graph (fold (reconnect m) cs ed)) = graph_nodes (current_graph ed) \<and>
   priv_graph (fold (reconnect m) cs ed) = priv_graph ed \<and>
   priv_graphTemplates (fold (reconnect m) cs ed) = priv_graphTemplates ed \<and>
   (\<exists>created. graph_connections (current_graph (fold (reconnect m) cs ed)) =
       graph_connections (current_graph ed) @ created \<and>
     list_all (\<lambda>c. ownedInterface ed (conn_from c) \<and> ownedInterface ed (conn_to c)) created)"
proof (induction cs arbitrary: ed)
  case Nil
  show ?case by simp
next
  case (Cons c cs)
  let ?e = "reconnect m c ed"
  note F = reconnect_frame [of m c ed]
  from F have own: "ownedInterface ?e = ownedInterface ed"
    by (intro ownedInterface_cong) simp_all
  from reconnect_connections [of m c ed] obtain c1 where
    c1: "graph_connections (current_graph ?e) = graph_connections (current_graph ed) @ c1"
      "list_all (\<lambda>c. ownedInterface ed (conn_from c) \<and> ownedInterface ed (conn_to c)) c1"
    by blast
  from Cons [of ?e] obtain c2 where
    c2: "graph_connections (current_graph (fold (reconnect m) cs ?e)) =
           graph_connections (current_graph ?e) @ c2"
      "list_all (\<lambda>c. ownedInterface ?e (conn_from c) \<and> ownedInterface ?e (conn_to c)) c2"
    by blast
  have "graph_connections (current_graph (fold (reconnect m) (c # cs) ed)) =
          graph_connections (current_graph ed) @ (c1 @ c2)"
    using c1(1) c2(1) by simp
  moreover have
    "list_all (\<lambda>c. ownedInterface ed (conn_from c) \<and> ownedInterface ed (conn_to c)) (c1 @ c2)"
    using c1(2) c2(2) own by simp
  ultimately have "\<exists>created.
      graph_connections (current_graph (fold (reconnect m) (c # cs) ed)) =
        graph_connections (current_graph ed) @ created \<and>
      list_all (\<lambda>c. ownedInterface ed (conn_from c) \<and> ownedInterface ed (conn_to c)) created"
    by blast
  moreover from Cons [of ?e] F have
    "nodes_h (heap (fold (reconnect m) (c # cs) ed)) = nodes_h (heap ed)"
    "graph_nodes (current_graph (fold (reconnect m) (c # cs) ed)) = graph_nodes (current_graph ed)"
    "priv_graph (fold (reconnect m) (c # cs) ed) = priv_graph ed"
    "priv_graphTemplates (fold (reconnect m) (c # cs) ed) = priv_graphTemplates ed"
    by simp_all
  ultimately show ?case by blast
qed


lemma reconnect_absent:
  assumes "fst (resolve m (conn_from c)) \<notin> nodeIds ed \<or> fst (resolve m (conn_to c)) \<notin> nodeIds ed"
  shows "reconnect m c ed = ed"
  using assms by (auto simp: reconnect_def findInterface_absent split: option.splits)

lemma fold_reconnect_absent:
  assumes "\<And>c. c \<in> set cs \<Longrightarrow>
     fst (resolve m (conn_from c)) \<notin> nodeIds ed \<or> fst (resolve m (conn_to c)) \<notin> nodeIds ed"
  shows "fold (reconnect m) cs ed = ed"
  using assms by (induction cs) (simp_all add: reconnect_absent)

lemma copyNode_Returned:
  assumes "copyNode node mx my r ed = (Returned u, ed')"
  shows "priv_graph ed' = priv_graph ed"
    and "priv_graphTemplates ed' = priv_graphTemplates ed"
    and "graph_connections (graphs_h (heap ed') g) = graph_connections (graphs_h (heap ed) g)"
    and "graph_nodes (current_graph ed') = graph_nodes (current_graph ed) @ [r]"
    and "node_id (nodes_h (heap ed') q) = node_id (nodes_h (heap ed) q)"
    and "q \<noteq> r \<Longrightarrow> node_position (nodes_h (heap ed') q) = node_position (nodes_h (heap ed) q)"
    and "\<exists>p np. node_position (nodes_h (heap ed) r) = Some p \<and>
           node_position (nodes_h (heap ed) node) = Some np \<and>
           node_position (nodes_h (heap ed') r) = Some (translate np mx my p)"
proof -
  from assms obtain p where p: "node_position (nodes_h (heap ed) r) = Some p"
    by (auto simp: copyNode_def split: option.splits)
  let ?ed1 = "ed\<lparr>subgraphNodePositions :=
                  (subgraphNodePositions ed)(node_id (nodes_h (heap ed) r) \<mapsto> p)\<rparr>"
  let ?ed2 = "upd_graph (priv_graph ?ed1) (addNode r) ?ed1"
  from assms p obtain np where np: "node_position (nodes_h (heap ?ed2) node) = Some np"
    by (auto simp: copyNode_def Let_def split: option.splits)
  from assms p np have ed': "ed' =
      upd_node r (\<lambda>n. n\<lparr>node_inputs := map resetCount (node_inputs n),
                         node_outputs := map resetCount (node_outputs n)\<rparr>)
        (upd_graph (priv_graph ?ed2)
           (\<lambda>g. g\<lparr>graph_selectedNodes := graph_selectedNodes g @ [r]\<rparr>)
           (upd_node r (\<lambda>n. n\<lparr>node_position := Some (translate np mx my p)\<rparr>) ?ed2))"
    by (simp add: copyNode_def Let_def)
  show "priv_graph ed' = priv_graph ed"
    and "priv_graphTemplates ed' = priv_graphTemplates ed"
    and "graph_connections (graphs_h (heap ed') g) = graph_connections (graphs_h (heap ed) g)"
    and "graph_nodes (current_graph ed') = graph_nodes (current_graph ed) @ [r]"
    and "node_id (nodes_h (heap ed') q) = node_id (nodes_h (heap ed) q)"
    by (simp_all add: ed' upd_node_def upd_graph_def addNode_def current_graph_def)
  show "node_position (nodes_h (heap ed') q) = node_position (nodes_h (heap ed) q)" if "q \<noteq> r"
    using that by (simp add: ed' upd_node_def upd_graph_def)
  from np have "node_position (nodes_h (heap ed) node) = Some np"
    by (simp add: upd_graph_def)
  moreover have "node_position (nodes_h (heap ed') r) = Some (translate np mx my p)"
    by (simp add: ed' upd_node_def upd_graph_def)
  ultimately show "\<exists>p np. node_position (nodes_h (heap ed) r) = Some p \<and>
           node_position (nodes_h (heap ed) node) = Some np \<and>
           node_position (nodes_h (heap ed') r) = Some (translate np mx my p)"
    using p by blast
qed

lemma copyEach_Returned:
  assumes "forEach (copyNode node mx my) rs ed = (Returned u, ed')"
  shows "priv_graph ed' = priv_graph ed \<and>
         priv_graphTemplates ed' = priv_graphTemplates ed \<and>
         (\<forall>g. graph_connections (graphs_h (heap ed') g) =
               graph_connections (graphs_h (heap ed) g)) \<and>
         graph_nodes (current_graph ed') = graph_nodes (current_graph ed) @ rs \<and>
         (\<forall>q. node_id (nodes_h (heap ed') q) = node_id (nodes_h (heap ed) q)) \<and>
         (\<forall>q. q \<notin> set rs \<longrightarrow>
               node_position (nodes_h (heap ed') q) = node_position (nodes_h (heap ed) q))"
  using assms
proof (induction rs arbitrary: ed u)
  case Nil
  then show ?case by simp
next
  case (Cons r rs)
  from Cons.prems obtain v ed1 where
    c: "copyNode node mx my r ed = (Returned v, ed1)"
    and f: "forEach (copyNode node mx my) rs ed1 = (Returned u, ed')"
    by (auto split: prod.splits result.splits)
  note C = copyNode_Returned [OF c]
  note IH = Cons.IH [OF f]
  have "priv_graph ed' = priv_graph ed" using IH C(1) by simp
  moreover have "priv_graphTemplates ed' = priv_graphTemplates ed" using IH C(2) by simp
  moreover have "\<forall>g. graph_connections (graphs_h (heap ed') g) =
                     graph_connections (graphs_h (heap ed) g)" using IH C(3) by simp
  moreover have "graph_nodes (current_graph ed') = graph_nodes (current_graph ed) @ r # rs"
    using IH C(4) by simp
  moreover have "\<forall>q. node_id (nodes_h (heap ed') q) = node_id (nodes_h (heap ed) q)"
    using IH C(5) by simp
  moreover have "\<forall>q. q \<notin> set (r # rs) \<longrightarrow>
      node_position (nodes_h (heap ed') q) = node_position (nodes_h (heap ed) q)"
    using IH C(6) by simp
  ultimately show ?case by blast
qed

lemma unwrapSubgraph_Returned:
  assumes "unwrapSubgraph env node ed = (Returned u, ed')"
  shows "\<exists>subgraph v ed2.
     node_subgraph (nodes_h (heap ed) node) = Some subgraph \<and>
     None \<notin> set (map (\<lambda>r. node_position (nodes_h (heap ed) r)) (copiedNodes env (heap ed) subgraph)) \<and>
     forEach (copyNode node
                (mean (map pos_x (List.map_filter id (map (\<lambda>r. node_position (nodes_h (heap ed) r))
                   (copiedNodes env (heap ed) subgraph)))))
                (mean (map pos_y (List.map_filter id (map (\<lambda>r. node_position (nodes_h (heap ed) r))
                   (copiedNodes env (heap ed) subgraph))))))
       (copiedNodes env (heap ed) subgraph)
       (upd_graph (priv_graph ed) (\<lambda>g. g\<lparr>graph_selectedNodes := []\<rparr>) ed) = (Returned v, ed2) \<and>
     ed' = fold (reconnect (subgraphNodeToNode (nodes_h (heap ed) node)
                    (graph_connections (graphs_h (heap ed) subgraph))))
             (graph_connections (graphs_h (heap ed) subgraph) @
              filter (touches (node_id (nodes_h (heap ed2) node)))
                (graph_connections (current_graph ed2)))
             (upd_graph (priv_graph ed2) (removeNode (heap ed2) node) ed2)"
  using assms
  by (auto simp: unwrapSubgraph_def Let_def split: option.splits if_splits prod.splits result.splits)


lemma snd_set_property: "snd ` set (set_property k v obj) \<subseteq> insert v (snd ` set obj)"
proof (cases "k \<in> set (map fst obj)")
  case True
  have "snd ` set (map (\<lambda>(k', v'). if k' = k then (k', v) else (k', v')) obj) \<subseteq>
        insert v (snd ` set obj)"
    by (induction obj) (auto split: if_splits)
  with True show ?thesis by (simp add: set_property_def)
next
  case False
  then show ?thesis by (auto simp: set_property_def)
qed

lemma put_target:
  assumes "snd ` set m \<subseteq> T" and "v \<in> T"
  shows "snd ` set (set_property k v m) \<subseteq> T"
  using assms snd_set_property [of k v m] by blast

lemma mapInput_targets:
  assumes "snd ` set m \<subseteq> T"
    and "\<And>c. c \<in> set cs \<Longrightarrow>
           (intf_nodeId (conn_from c), intf_id (conn_from c)) \<in> T \<and>
           (intf_nodeId (conn_to c), intf_id (conn_to c)) \<in> T"
  shows "snd ` set (mapInput cs input m) \<subseteq> T"
proof (cases "find (\<lambda>c. Some (intf_id (conn_from c)) = intf_subgraphNodeId input) cs")
  case (Some c)
  then have "c \<in> set cs" by (auto dest: find_Some_member)
  with assms(2) have "(intf_nodeId (conn_to c), intf_id (conn_to c)) \<in> T" by blast
  with Some show ?thesis by (simp add: mapInput_def put_target [OF assms(1)])
next
  case None
  show ?thesis
  proof (cases "find (\<lambda>c. Some (intf_id (conn_to c)) = intf_subgraphNodeId input) cs")
    case (Some c)
    then have "c \<in> set cs" by (auto dest: find_Some_member)
    with assms(2) have "(intf_nodeId (conn_from c), intf_id (conn_from c)) \<in> T" by blast
    with Some None show ?thesis by (simp add: mapInput_def put_target [OF assms(1)])
  next
    case n: None
    with None assms(1) show ?thesis by (simp add: mapInput_def)
  qed
qed

lemma mapOutput_targets:
  assumes "snd ` set m \<subseteq> T"
    and "\<And>c. c \<in> set cs \<Longrightarrow>
           (intf_nodeId (conn_from c), intf_id (conn_from c)) \<in> T \<and>
           (intf_nodeId (conn_to c), intf_id (conn_to c)) \<in> T"
  shows "snd ` set (mapOutput cs output m) \<subseteq> T"
proof (cases "find (\<lambda>c. Some (intf_id (conn_to c)) = intf_subgraphNodeId output) cs")
  case (Some c)
  then have "c \<in> set cs" by (auto dest: find_Some_member)
  with assms(2) have "(intf_nodeId (conn_from c), intf_id (conn_from c)) \<in> T" by blast
  with Some show ?thesis by (simp add: mapOutput_def put_target [OF assms(1)])
next
  case None
  with assms(1) show ?thesis by (simp add: mapOutput_def)
qed

lemma subgraphNodeToNode_targets:
  assumes "\<And>c. c \<in> set cs \<Longrightarrow>
           (intf_nodeId (conn_from c), intf_id (conn_from c)) \<in> T \<and>
           (intf_nodeId (conn_to c), intf_id (conn_to c)) \<in> T"
  shows "snd ` set (subgraphNodeToNode node cs) \<subseteq> T"
proof -
  have i: "snd ` set (fold (mapInput cs) xs m) \<subseteq> T" if "snd ` set m \<subseteq> T" for xs m
    using that by (induction xs arbitrary: m) (simp_all add: mapInput_targets assms)
  have o: "snd ` set (fold (mapOutput cs) xs m) \<subseteq> T" if "snd ` set m \<subseteq> T" for xs m
    using that by (induction xs arbitrary: m) (simp_all add: mapOutput_targets assms)
  show ?thesis unfolding subgraphNodeToNode_def by (intro o i) simp
qed

lemma resolve_cases:
  "fst (resolve m e) = intf_nodeId e \<or> resolve m e \<in> snd ` set m"
  by (auto simp: resolve_def split: option.splits dest!: map_of_SomeD intro: rev_image_eqI)


lemma removeNode_connections_subset:
  "set (graph_connections (removeNode h r g)) \<subseteq> set (graph_connections g)"
  by (auto simp: removeNode_def)

text \<open>
  C8 (amended).  Whenever \<open>unwrapSubgraph\<close> returns, the graph templates of the
  editor are what they were, and every connection of the current graph either was there
  before or joins two interfaces owned by nodes of the current graph.  When the
  subgraph is a pass-through for its node (only boundary markers, wired among
  themselves), no connection is created at all: the connections of the current graph
  are the former ones that do not touch the subgraph node, and the subgraph node is no
  longer a node of the graph.
\<close>

theorem unwrapSubgraph_connections:
  assumes "unwrapSubgraph env node ed = (Returned u, ed')"
  shows "priv_graphTemplates ed' = priv_graphTemplates ed \<and>
         list_all (\<lambda>c. c \<in> set (graph_connections (current_graph ed)) \<or>
                        ownedInterface ed' (conn_from c) \<and> ownedInterface ed' (conn_to c))
           (graph_connections (current_graph ed')) \<and>
         (passThrough env node ed \<longrightarrow>
            graph_connections (current_graph ed') =
              filter (\<lambda>c. \<not> touches (node_id (nodes_h (heap ed) node)) c)
                (graph_connections (current_graph ed)) \<and>
            node \<notin> set (graph_nodes (current_graph ed')))"
proof -
  from unwrapSubgraph_Returned [OF assms] obtain subgraph v ed2 mx my where
    sub: "node_subgraph (nodes_h (heap ed) node) = Some subgraph"
    and copy: "forEach (copyNode node mx my) (copiedNodes env (heap ed) subgraph)
        (upd_graph (priv_graph ed) (\<lambda>g. g\<lparr>graph_selectedNodes := []\<rparr>) ed) = (Returned v, ed2)"
    and ed': "ed' = fold (reconnect (subgraphNodeToNode (nodes_h (heap ed) node)
                    (graph_connections (graphs_h (heap ed) subgraph))))
             (graph_connections (graphs_h (heap ed) subgraph) @
              filter (touches (node_id (nodes_h (heap ed2) node)))
                (graph_connections (current_graph ed2)))
             (upd_graph (priv_graph ed2) (removeNode (heap ed2) node) ed2)"
    by blast
  let ?ed1 = "upd_graph (priv_graph ed) (\<lambda>g. g\<lparr>graph_selectedNodes := []\<rparr>) ed"
  let ?ed3 = "upd_graph (priv_graph ed2) (removeNode (heap ed2) node) ed2"
  let ?m = "subgraphNodeToNode (nodes_h (heap ed) node)
              (graph_connections (graphs_h (heap ed) subgraph))"
  let ?cs = "graph_connections (graphs_h (heap ed) subgraph) @
              filter (touches (node_id (nodes_h (heap ed2) node)))
                (graph_connections (current_graph ed2))"
  let ?old = "graph_connections (current_graph ed)"
  note CE = copyEach_Returned [OF copy]
  from CE have g2: "priv_graph ed2 = priv_graph ed" by simp
  from CE have t2: "priv_graphTemplates ed2 = priv_graphTemplates ed" by simp
  from CE have "graph_connections (graphs_h (heap ed2) (priv_graph ed)) =
                graph_connections (graphs_h (heap ?ed1) (priv_graph ed))" by blast
  then have c2: "graph_connections (current_graph ed2) = ?old"
    by (simp add: current_graph_def g2 upd_graph_def)
  from CE have "graph_nodes (current_graph ed2) =
                graph_nodes (current_graph ?ed1) @ copiedNodes env (heap ed) subgraph" by blast
  then have n2: "graph_nodes (current_graph ed2) =
               graph_nodes (current_graph ed) @ copiedNodes env (heap ed) subgraph"
    by (simp add: current_graph_def upd_graph_def)
  from CE have "\<And>q. node_id (nodes_h (heap ed2) q) = node_id (nodes_h (heap ?ed1) q)" by blast
  then have i2: "\<And>q. node_id (nodes_h (heap ed2) q) = node_id (nodes_h (heap ed) q)"
    by (simp add: upd_graph_def)
  have c3: "graph_connections (current_graph ?ed3) =
              graph_connections (removeNode (heap ed2) node (current_graph ed2))"
    and n3: "graph_nodes (current_graph ?ed3) =
              graph_nodes (removeNode (heap ed2) node (current_graph ed2))"
    and h3: "nodes_h (heap ?ed3) = nodes_h (heap ed2)"
    and t3: "priv_graphTemplates ?ed3 = priv_graphTemplates ed"
    by (simp_all add: current_graph_def upd_graph_def t2)
  from fold_reconnect [of ?m ?cs ?ed3] obtain created where
    f: "nodes_h (heap ed') = nodes_h (heap ?ed3)"
      "graph_nodes (current_graph ed') = graph_nodes (current_graph ?ed3)"
      "priv_graphTemplates ed' = priv_graphTemplates ?ed3"
    and cr: "graph_connections (current_graph ed') =
               graph_connections (current_graph ?ed3) @ created"
      "list_all (\<lambda>c. ownedInterface ?ed3 (conn_from c) \<and> ownedInterface ?ed3 (conn_to c)) created"
    unfolding ed' by blast
  have own: "ownedInterface ed' = ownedInterface ?ed3"
    by (rule ownedInterface_cong) (rule f(1), rule f(2))
  have templates: "priv_graphTemplates ed' = priv_graphTemplates ed"
    using f(3) t3 by simp
  have "set (graph_connections (current_graph ?ed3)) \<subseteq> set ?old"
    unfolding c3 using removeNode_connections_subset [of "heap ed2" node "current_graph ed2"] c2
    by simp
  then have "list_all (\<lambda>c. c \<in> set ?old \<or>
                 ownedInterface ed' (conn_from c) \<and> ownedInterface ed' (conn_to c))
               (graph_connections (current_graph ?ed3))"
    by (auto simp: list_all_iff)
  moreover have "list_all (\<lambda>c. c \<in> set ?old \<or>
                 ownedInterface ed' (conn_from c) \<and> ownedInterface ed' (conn_to c)) created"
    using cr(2) unfolding own by (auto simp: list_all_iff)
  ultimately have general: "list_all (\<lambda>c. c \<in> set ?old \<or>
                 ownedInterface ed' (conn_from c) \<and> ownedInterface ed' (conn_to c))
               (graph_connections (current_graph ed'))"
    unfolding cr(1) by simp
  have pass: "graph_connections (current_graph ed') =
                filter (\<lambda>c. \<not> touches (node_id (nodes_h (heap ed) node)) c) ?old \<and>
              node \<notin> set (graph_nodes (current_graph ed'))"
    if p: "passThrough env node ed"
  proof -
    let ?nid = "node_id (nodes_h (heap ed) node)"
    from p sub have
      none: "copiedNodes env (heap ed) subgraph = []"
      and outside: "list_all (\<lambda>c. intf_nodeId (conn_from c) \<notin> nodeIds ed \<and>
                         intf_nodeId (conn_to c) \<notin> nodeIds ed)
            (graph_connections (graphs_h (heap ed) subgraph))"
      and only: "filter (\<lambda>r. node_id (nodes_h (heap ed) r) = ?nid)
            (graph_nodes (current_graph ed)) = [node]"
      by (simp_all add: passThrough_def)
    from copy none have e2: "ed2 = ?ed1" by simp
    have nodes2: "graph_nodes (current_graph ed2) = graph_nodes (current_graph ed)"
      using n2 none by simp
    have "node \<in> set (filter (\<lambda>r. node_id (nodes_h (heap ed) r) = ?nid)
            (graph_nodes (current_graph ed)))"
      unfolding only by simp
    then have member: "node \<in> set (graph_nodes (current_graph ed))" by simp
    have nodes3: "graph_nodes (current_graph ?ed3) = remove1 node (graph_nodes (current_graph ed))"
      and conns3: "graph_connections (current_graph ?ed3) =
                     filter (\<lambda>c. \<not> touches ?nid c) ?old"
      unfolding n3 c3 using member nodes2 c2 i2 by (simp_all add: removeNode_def)
    have gone: "filter (\<lambda>r. node_id (nodes_h (heap ed) r) = ?nid)
                  (remove1 node (graph_nodes (current_graph ed))) = []"
      by (simp add: filter_remove1 only)
    have ids3: "nodeIds ?ed3 \<subseteq> nodeIds ed" "?nid \<notin> nodeIds ?ed3"
    proof -
      have "nodeIds ?ed3 = (\<lambda>r. node_id (nodes_h (heap ed) r)) `
              set (remove1 node (graph_nodes (current_graph ed)))"
        unfolding nodeIds_def nodes3 h3 using i2 by simp
      moreover have "set (remove1 node (graph_nodes (current_graph ed))) \<subseteq>
              set (graph_nodes (current_graph ed))"
        by (rule set_remove1_subset)
      moreover have "\<forall>r \<in> set (remove1 node (graph_nodes (current_graph ed))).
              node_id (nodes_h (heap ed) r) \<noteq> ?nid"
        using gone by (simp add: filter_empty_conv)
      ultimately show "nodeIds ?ed3 \<subseteq> nodeIds ed" "?nid \<notin> nodeIds ?ed3"
        by (auto simp: nodeIds_def)
    qed
    let ?T = "{t. fst t \<notin> nodeIds ed}"
    have targets: "snd ` set ?m \<subseteq> ?T"
      by (rule subgraphNodeToNode_targets) (use outside in \<open>auto simp: list_all_iff\<close>)
    have away: "fst (resolve ?m e) \<notin> nodeIds ?ed3"
      if "intf_nodeId e \<notin> nodeIds ?ed3" for e
      using resolve_cases [of ?m e] that targets ids3(1) by auto
    have "fst (resolve ?m (conn_from c)) \<notin> nodeIds ?ed3 \<or>
          fst (resolve ?m (conn_to c)) \<notin> nodeIds ?ed3" if "c \<in> set ?cs" for c
    proof -
      from that consider
        (inner) "c \<in> set (graph_connections (graphs_h (heap ed) subgraph))"
        | (outer) "touches ?nid c"
        using i2 by auto
      then show ?thesis
      proof cases
        case inner
        with outside have "intf_nodeId (conn_from c) \<notin> nodeIds ed"
          by (auto simp: list_all_iff)
        with ids3(1) have "intf_nodeId (conn_from c) \<notin> nodeIds ?ed3" by blast
        then show ?thesis using away by blast
      next
        case outer
        then have "intf_nodeId (conn_from c) \<notin> nodeIds ?ed3 \<or>
                   intf_nodeId (conn_to c) \<notin> nodeIds ?ed3"
          using ids3(2) by (auto simp: touches_def)
        then show ?thesis using away by blast
      qed
    qed
    then have "fold (reconnect ?m) ?cs ?ed3 = ?ed3"
      by (rule fold_reconnect_absent)
    then have same: "ed' = ?ed3" unfolding ed' .
    have "node \<notin> set (remove1 node (graph_nodes (current_graph ed)))"
    proof
      assume "node \<in> set (remove1 node (graph_nodes (current_graph ed)))"
      then have "node \<in> set (filter (\<lambda>r. node_id (nodes_h (heap ed) r) = ?nid)
                  (remove1 node (graph_nodes (current_graph ed))))"
        by simp
      then show False unfolding gone by simp
    qed
    with same nodes3 conns3 show ?thesis by simp
  qed
  from templates general pass show ?thesis by blast
qed

lemmas unwrap_defs =
  unwrapSubgraph_def copiedNodes_def subgraphNodeToNode_def mapInput_def mapOutput_def
  set_property_def mean_def reconnect_def resolve_def findInterface_def nodeInterfaces_def
  removeNode_def touches_def upd_graph_def upd_node_def current_graph_def copyNode_def
  translate_def addNode_def addConnection_def resetCount_def List.map_filter_def Let_def

lemmas passThrough_defs =
  passThroughEditor_def passThroughHeap_def port_def placed_def

text \<open>
  C8 as stated fails: inlining the node \<open>N\<close> of \<open>A \<rightarrow> N \<rightarrow> B\<close>, whose subgraph wires
  its input marker straight to its output marker, leaves the graph without any
  connection, and the template list still holds the template.
\<close>

theorem unwrap_pass_through_disconnects:
  "fst (unwrapSubgraph headless 11 passThroughEditor) = Returned () \<and>
   graph_connections (current_graph (snd (unwrapSubgraph headless 11 passThroughEditor))) = [] \<and>
   graph_nodes (current_graph (snd (unwrapSubgraph headless 11 passThroughEditor))) = [10, 12] \<and>
   priv_graphTemplates (snd (unwrapSubgraph headless 11 passThroughEditor)) = [emptyTemplate ''S'']"
  by (simp add: unwrap_defs passThrough_defs sample_defs)

theorem unwrapSubgraph_connections_witness:
  "passThrough headless 11 passThroughEditor \<and>
   fst (unwrapSubgraph headless 11 passThroughEditor) = Returned () \<and>
   graph_connections (current_graph (snd (unwrapSubgraph headless 11 passThroughEditor))) = [] \<and>
   11 \<notin> set (graph_nodes (current_graph (snd (unwrapSubgraph headless 11 passThroughEditor)))) \<and>
   priv_graphTemplates (snd (unwrapSubgraph headless 11 passThroughEditor)) =
     priv_graphTemplates passThroughEditor"
proof -
  have pass: "passThrough headless 11 passThroughEditor"
    by (simp add: passThrough_def nodeIds_def copiedNodes_def current_graph_def
        passThrough_defs sample_defs)
  have r: "fst (unwrapSubgraph headless 11 passThroughEditor) = Returned ()"
    by (simp add: unwrap_defs passThrough_defs sample_defs)
  then have run: "unwrapSubgraph headless 11 passThroughEditor =
      (Returned (), snd (unwrapSubgraph headless 11 passThroughEditor))"
    by (metis prod.collapse)
  have old: "filter (\<lambda>c. \<not> touches (node_id (nodes_h (heap passThroughEditor) 11)) c)
        (graph_connections (current_graph passThroughEditor)) = []"
    by (simp add: touches_def current_graph_def passThrough_defs sample_defs)
  from unwrapSubgraph_connections [OF run] pass r old show ?thesis by simp
qed

section \<open>The centre of the copied nodes\<close>












section \<open>Entering a subgraph and leaving it at once\<close>













end
